theory Spec2Isabelle
  imports Complex_Main
begin

section \<open>JavaScript numbers\<close>

text \<open>
  A JavaScript \<^verbatim>\<open>number\<close> is an IEEE-754 double. The model keeps the three kinds of
  special value the code tests for (\<^verbatim>\<open>Number.isFinite\<close>, \<^verbatim>\<open>x || 1\<close>, comparisons
  with \<^verbatim>\<open>Infinity\<close>) and the rules by which they arise and propagate; a finite value is
  a real number and finite arithmetic is exact: rounding to 53 bits and overflow of a
  finite result are not modelled, and \<^verbatim>\<open>-0\<close> is not told apart from \<^verbatim>\<open>0\<close>.
\<close>

datatype jsnum = Fin real | PInf | NInf | NaN

fun js_neg :: "jsnum \<Rightarrow> jsnum" where
  "js_neg (Fin a) = Fin (- a)"
| "js_neg PInf = NInf"
| "js_neg NInf = PInf"
| "js_neg NaN = NaN"

fun js_add :: "jsnum \<Rightarrow> jsnum \<Rightarrow> jsnum" where
  "js_add (Fin a) (Fin b) = Fin (a + b)"
| "js_add (Fin a) PInf = PInf"
| "js_add (Fin a) NInf = NInf"
| "js_add PInf (Fin b) = PInf"
| "js_add PInf PInf = PInf"
| "js_add PInf NInf = NaN"
| "js_add NInf (Fin b) = NInf"
| "js_add NInf NInf = NInf"
| "js_add NInf PInf = NaN"
| "js_add NaN y = NaN"
| "js_add x NaN = NaN"

definition js_sub :: "jsnum \<Rightarrow> jsnum \<Rightarrow> jsnum" where
  "js_sub x y = js_add x (js_neg y)"

text \<open>An infinity times a finite value: the sign of the product, \<^verbatim>\<open>NaN\<close> for zero.\<close>

definition inf_times :: "bool \<Rightarrow> real \<Rightarrow> jsnum" where
  "inf_times positive b =
     (if b = 0 then NaN else if (0 < b) = positive then PInf else NInf)"

fun js_mul :: "jsnum \<Rightarrow> jsnum \<Rightarrow> jsnum" where
  "js_mul (Fin a) (Fin b) = Fin (a * b)"
| "js_mul (Fin a) PInf = inf_times True a"
| "js_mul (Fin a) NInf = inf_times False a"
| "js_mul PInf (Fin b) = inf_times True b"
| "js_mul NInf (Fin b) = inf_times False b"
| "js_mul PInf PInf = PInf"
| "js_mul PInf NInf = NInf"
| "js_mul NInf PInf = NInf"
| "js_mul NInf NInf = PInf"
| "js_mul NaN y = NaN"
| "js_mul x NaN = NaN"

text \<open>
  Division. A finite value over zero is an infinity of the sign of the dividend (the sign
  of the zero is not modelled); no division of the code has a zero divisor.
\<close>

fun js_div :: "jsnum \<Rightarrow> jsnum \<Rightarrow> jsnum" where
  "js_div (Fin a) (Fin b) =
     (if b = 0 then (if a = 0 then NaN else if 0 < a then PInf else NInf)
      else Fin (a / b))"
| "js_div (Fin a) PInf = Fin 0"
| "js_div (Fin a) NInf = Fin 0"
| "js_div PInf (Fin b) = (if 0 \<le> b then PInf else NInf)"
| "js_div NInf (Fin b) = (if 0 \<le> b then NInf else PInf)"
| "js_div PInf PInf = NaN"
| "js_div PInf NInf = NaN"
| "js_div NInf PInf = NaN"
| "js_div NInf NInf = NaN"
| "js_div NaN y = NaN"
| "js_div x NaN = NaN"

text \<open>Comparison \<^verbatim>\<open>x < y\<close>: false as soon as one side is \<^verbatim>\<open>NaN\<close>.\<close>

fun js_lt :: "jsnum \<Rightarrow> jsnum \<Rightarrow> bool" where
  "js_lt (Fin a) (Fin b) = (a < b)"
| "js_lt (Fin a) PInf = True"
| "js_lt NInf (Fin b) = True"
| "js_lt NInf PInf = True"
| "js_lt x y = False"

definition js_gt :: "jsnum \<Rightarrow> jsnum \<Rightarrow> bool" where
  "js_gt x y = js_lt y x"

text \<open>Comparison \<^verbatim>\<open>x <= y\<close>.\<close>

fun js_le :: "jsnum \<Rightarrow> jsnum \<Rightarrow> bool" where
  "js_le NaN y = False"
| "js_le x NaN = False"
| "js_le x y = (x = y \<or> js_lt x y)"

text \<open>\<^verbatim>\<open>Math.min\<close> and \<^verbatim>\<open>Math.max\<close> of two arguments: \<^verbatim>\<open>NaN\<close> if either is.\<close>

fun js_min :: "jsnum \<Rightarrow> jsnum \<Rightarrow> jsnum" where
  "js_min NaN y = NaN"
| "js_min x NaN = NaN"
| "js_min x y = (if js_lt y x then y else x)"

fun js_max :: "jsnum \<Rightarrow> jsnum \<Rightarrow> jsnum" where
  "js_max NaN y = NaN"
| "js_max x NaN = NaN"
| "js_max x y = (if js_lt x y then y else x)"

fun isFinite :: "jsnum \<Rightarrow> bool" where
  "isFinite (Fin a) = True"
| "isFinite x = False"

text \<open>Truthiness of a number: every value but \<^verbatim>\<open>0\<close> and \<^verbatim>\<open>NaN\<close>.\<close>

fun truthy :: "jsnum \<Rightarrow> bool" where
  "truthy (Fin a) = (a \<noteq> 0)"
| "truthy NaN = False"
| "truthy x = True"

text \<open>\<^verbatim>\<open>x || y\<close> on numbers.\<close>

definition js_or :: "jsnum \<Rightarrow> jsnum \<Rightarrow> jsnum" where
  "js_or x y = (if truthy x then x else y)"

text \<open>\<^verbatim>\<open>x ?? y\<close>: the option is \<^verbatim>\<open>undefined\<close> or a number.\<close>

fun nullish :: "jsnum option \<Rightarrow> jsnum \<Rightarrow> jsnum" where
  "nullish None y = y"
| "nullish (Some x) y = x"

fun js_floor :: "jsnum \<Rightarrow> jsnum" where
  "js_floor (Fin a) = Fin (of_int \<lfloor>a\<rfloor>)"
| "js_floor x = x"

text \<open>\<^verbatim>\<open>Math.round\<close>: to the nearest integer, a tie towards \<open>+\<infinity>\<close>.\<close>

fun js_round :: "jsnum \<Rightarrow> jsnum" where
  "js_round (Fin a) = Fin (of_int \<lfloor>a + 1 / 2\<rfloor>)"
| "js_round x = x"

fun js_sqrt :: "jsnum \<Rightarrow> jsnum" where
  "js_sqrt (Fin a) = (if a < 0 then NaN else Fin (sqrt a))"
| "js_sqrt PInf = PInf"
| "js_sqrt x = NaN"

fun js_cos :: "jsnum \<Rightarrow> jsnum" where
  "js_cos (Fin a) = Fin (cos a)"
| "js_cos x = NaN"

section \<open>Arithmetic under a rounding function\<close>

text \<open>
  An arithmetic operation on doubles is the exact operation followed by the rounding of a
  finite result to a double: the rounding can lose precision, overflow to an infinity or
  underflow to zero. The operations below take the rounding as a parameter \<open>rnd\<close>. What is
  proved of them for every \<open>rnd\<close> with the properties a statement names holds of the
  rounding of binary64, which has those properties. With \<open>Fin\<close> as the rounding they are
  the exact operations above.
\<close>

definition r_add :: "(real \<Rightarrow> jsnum) \<Rightarrow> jsnum \<Rightarrow> jsnum \<Rightarrow> jsnum" where
  "r_add rnd x y = (case (x, y) of (Fin a, Fin b) \<Rightarrow> rnd (a + b) | _ \<Rightarrow> js_add x y)"

definition r_sub :: "(real \<Rightarrow> jsnum) \<Rightarrow> jsnum \<Rightarrow> jsnum \<Rightarrow> jsnum" where
  "r_sub rnd x y = r_add rnd x (js_neg y)"

definition r_mul :: "(real \<Rightarrow> jsnum) \<Rightarrow> jsnum \<Rightarrow> jsnum \<Rightarrow> jsnum" where
  "r_mul rnd x y = (case (x, y) of (Fin a, Fin b) \<Rightarrow> rnd (a * b) | _ \<Rightarrow> js_mul x y)"

definition r_div :: "(real \<Rightarrow> jsnum) \<Rightarrow> jsnum \<Rightarrow> jsnum \<Rightarrow> jsnum" where
  "r_div rnd x y =
     (case (x, y) of
        (Fin a, Fin b) \<Rightarrow> (if b = 0 then js_div x y else rnd (a / b))
      | _ \<Rightarrow> js_div x y)"

text \<open>
  A value that the rounding leaves as it is, as it leaves every double: the inputs of the
  program and the results of its operations are such values.
\<close>

fun dbl :: "(real \<Rightarrow> jsnum) \<Rightarrow> jsnum \<Rightarrow> bool" where
  "dbl rnd (Fin a) = (rnd a = Fin a)"
| "dbl rnd x = True"

text \<open>
  A rounding with the range of binary64 and no loss of precision: a result of magnitude at
  most \<open>2 ^ -1075\<close> becomes zero, one of magnitude at least \<open>2 ^ 1024 - 2 ^ 970\<close> becomes an
  infinity, as in binary64, and every other result is kept. It leaves every double as it
  is.
\<close>

definition rndRange :: "real \<Rightarrow> jsnum" where
  "rndRange x =
     (if \<bar>x\<bar> \<le> 1 / 2 ^ 1075 then Fin 0
      else if 2 ^ 1024 - 2 ^ 970 \<le> x then PInf
      else if x \<le> - (2 ^ 1024 - 2 ^ 970) then NInf
      else Fin x)"

section \<open>Data model of hotline.ts\<close>

record Point =
  lon :: jsnum
  lat :: jsnum
  speed :: jsnum
  timestamp :: jsnum

text \<open>
  The id of a segment is the string \<^verbatim>\<open>`${i}-${s}`\<close> of two loop counters; the pair
  \<open>(i, s)\<close> stands for it.
\<close>

type_synonym coord = "jsnum \<times> jsnum"

record Segment =
  seg_id :: "nat \<times> nat"
  path :: "coord \<times> coord"
  seg_speed :: jsnum
  seg_timestamp :: jsnum
  speed0 :: jsnum
  speed1 :: jsnum
  time0 :: jsnum
  time1 :: jsnum

record ViewState =
  longitude :: jsnum
  latitude :: jsnum
  zoom :: jsnum
  pitch :: jsnum
  bearing :: jsnum

text \<open>
  A key of the grid index is the string \<^verbatim>\<open>`${gx}_${gy}`\<close> of two numbers; the pair of
  the two numbers stands for it.
\<close>

type_synonym grid = "jsnum \<times> jsnum \<rightharpoonup> Segment list"

record BuildResult =
  segments :: "Segment list"
  minSpeed :: jsnum
  maxSpeed :: jsnum
  initialViewState :: ViewState
  gridIndex :: grid
  gridSize :: jsnum

record NearestResult =
  res_lon :: jsnum
  res_lat :: jsnum
  res_speed :: jsnum
  res_timestamp :: jsnum
  distMeters :: jsnum

text \<open>
  \<^verbatim>\<open>subdivisions\<close> is an integer count by contract; the loop counters \<^verbatim>\<open>i\<close> and \<^verbatim>\<open>s\<close>
  are natural numbers.
\<close>

record BuildSegmentsOptions =
  subdivisions :: nat
  minSpeedOverride :: "jsnum option"
  maxSpeedOverride :: "jsnum option"

section \<open>buildSegments\<close>

definition lerp :: "jsnum \<Rightarrow> jsnum \<Rightarrow> jsnum \<Rightarrow> jsnum" where
  "lerp a b t = js_add a (js_mul (js_sub b a) t)"

text \<open>The segment pushed by the body of the inner loop for counters \<open>i\<close> and \<open>s\<close>.\<close>

definition mkSegment :: "Point \<Rightarrow> Point \<Rightarrow> nat \<Rightarrow> nat \<Rightarrow> nat \<Rightarrow> Segment" where
  "mkSegment a b n i s =
     (let t0 = js_div (Fin (real s)) (Fin (real n));
          t1 = js_div (Fin (real (s + 1))) (Fin (real n));
          lon0 = lerp (lon a) (lon b) t0;
          lat0 = lerp (lat a) (lat b) t0;
          lon1 = lerp (lon a) (lon b) t1;
          lat1 = lerp (lat a) (lat b) t1;
          sp0 = lerp (speed a) (speed b) t0;
          sp1 = lerp (speed a) (speed b) t1;
          segSpeed = js_div (js_add sp0 sp1) (Fin 2);
          tm0 = lerp (timestamp a) (timestamp b) t0;
          tm1 = lerp (timestamp a) (timestamp b) t1
      in \<lparr> seg_id = (i, s),
           path = ((lon0, lat0), (lon1, lat1)),
           seg_speed = segSpeed,
           seg_timestamp = js_div (js_add tm0 tm1) (Fin 2),
           speed0 = sp0, speed1 = sp1, time0 = tm0, time1 = tm1 \<rparr>)"

text \<open>
  The state of the two nested loops: the running \<^verbatim>\<open>minS\<close>, \<^verbatim>\<open>maxS\<close> and the array
  \<^verbatim>\<open>segs\<close>.
\<close>

type_synonym acc = "jsnum \<times> jsnum \<times> Segment list"

definition pushSegment :: "Segment \<Rightarrow> acc \<Rightarrow> acc" where
  "pushSegment g st =
     (case st of (minS, maxS, segs) \<Rightarrow>
        (if isFinite (seg_speed g)
         then (js_min minS (seg_speed g), js_max maxS (seg_speed g), segs @ [g])
         else (minS, maxS, segs @ [g])))"

definition innerLoop :: "Point \<Rightarrow> Point \<Rightarrow> nat \<Rightarrow> nat \<Rightarrow> acc \<Rightarrow> acc" where
  "innerLoop a b n i st = fold (\<lambda>s. pushSegment (mkSegment a b n i s)) [0..<n] st"

definition outerLoop :: "Point list \<Rightarrow> nat \<Rightarrow> acc \<Rightarrow> acc" where
  "outerLoop points n st =
     fold (\<lambda>i. innerLoop (points ! i) (points ! (i + 1)) n i) [0..<length points - 1] st"

text \<open>The bounding box \<open>(minLon, maxLon, minLat, maxLat)\<close> of the samples.\<close>

type_synonym bbox = "jsnum \<times> jsnum \<times> jsnum \<times> jsnum"

definition bboxStep :: "Point \<Rightarrow> bbox \<Rightarrow> bbox" where
  "bboxStep p bb =
     (case bb of (minLon, maxLon, minLat, maxLat) \<Rightarrow>
        (if js_lt (lon p) minLon then lon p else minLon,
         if js_gt (lon p) maxLon then lon p else maxLon,
         if js_lt (lat p) minLat then lat p else minLat,
         if js_gt (lat p) maxLat then lat p else maxLat))"

definition boundingBox :: "Point list \<Rightarrow> bbox" where
  "boundingBox points = fold bboxStep points (PInf, NInf, PInf, NInf)"

text \<open>The ladder of \<^verbatim>\<open>if (span < c) zoom = z\<close> statements, in the order of the source.\<close>

definition zoomOf :: "jsnum \<Rightarrow> jsnum" where
  "zoomOf spanDeg =
     (let z = Fin 3;
          z = (if js_lt spanDeg (Fin 0.8) then Fin 5 else z);
          z = (if js_lt spanDeg (Fin 0.4) then Fin 6 else z);
          z = (if js_lt spanDeg (Fin 0.2) then Fin 7 else z);
          z = (if js_lt spanDeg (Fin 0.1) then Fin 8 else z);
          z = (if js_lt spanDeg (Fin 0.05) then Fin 9 else z);
          z = (if js_lt spanDeg (Fin 0.025) then Fin 10 else z)
      in z)"

definition viewOf :: "Point list \<Rightarrow> ViewState" where
  "viewOf points =
     (case boundingBox points of (minLon, maxLon, minLat, maxLat) \<Rightarrow>
        (let centerLon = js_div (js_add minLon maxLon) (Fin 2);
             centerLat = js_div (js_add minLat maxLat) (Fin 2);
             spanDeg = js_max (js_sub maxLon minLon) (js_sub maxLat minLat)
         in \<lparr> longitude = centerLon, latitude = centerLat, zoom = zoomOf spanDeg,
              pitch = Fin 0, bearing = Fin 0 \<rparr>))"

text \<open>The key of the cell of a point, for a cell size.\<close>

definition cellKey :: "jsnum \<Rightarrow> jsnum \<Rightarrow> jsnum \<Rightarrow> jsnum \<times> jsnum" where
  "cellKey gs x y = (js_floor (js_div x gs), js_floor (js_div y gs))"

definition midKey :: "jsnum \<Rightarrow> Segment \<Rightarrow> jsnum \<times> jsnum" where
  "midKey gs g =
     (case path g of ((lon0, lat0), (lon1, lat1)) \<Rightarrow>
        (let midLon = js_div (js_add lon0 lon1) (Fin 2);
             midLat = js_div (js_add lat0 lat1) (Fin 2)
         in cellKey gs midLon midLat))"

text \<open>\<^verbatim>\<open>(gridIndex[key] ||= []).push(s)\<close>: the bucket is created on its first segment.\<close>

definition gridInsert :: "jsnum \<Rightarrow> Segment \<Rightarrow> grid \<Rightarrow> grid" where
  "gridInsert gs g m =
     (let key = midKey gs g
      in m(key \<mapsto> (case m key of None \<Rightarrow> [] | Some bucket \<Rightarrow> bucket) @ [g]))"

definition buildGrid :: "jsnum \<Rightarrow> Segment list \<Rightarrow> grid" where
  "buildGrid gs segs = fold (gridInsert gs) segs Map.empty"

definition buildSegments :: "Point list \<Rightarrow> BuildSegmentsOptions \<Rightarrow> BuildResult" where
  "buildSegments points options =
     (if length points < 2 then
        \<lparr> segments = [],
          minSpeed = nullish (minSpeedOverride options) (Fin 0),
          maxSpeed = nullish (maxSpeedOverride options) (Fin 1),
          initialViewState =
            \<lparr> longitude = Fin 0, latitude = Fin 0, zoom = Fin 2,
              pitch = Fin 0, bearing = Fin 0 \<rparr>,
          gridIndex = Map.empty,
          gridSize = Fin 0.05 \<rparr>
      else
        (case outerLoop points (subdivisions options) (PInf, NInf, []) of
           (minS, maxS, segs) \<Rightarrow>
             (let minS = (if \<not> isFinite minS then Fin 0 else minS);
                  maxS = (if \<not> isFinite maxS then Fin 1 else maxS);
                  effMin = nullish (minSpeedOverride options) minS;
                  effMax = nullish (maxSpeedOverride options) maxS;
                  gs = Fin 0.02
              in \<lparr> segments = segs,
                   minSpeed = effMin,
                   maxSpeed = effMax,
                   initialViewState = viewOf points,
                   gridIndex = buildGrid gs segs,
                   gridSize = gs \<rparr>)))"

section \<open>createSpeedColorScale\<close>

type_synonym RGB = "jsnum \<times> jsnum \<times> jsnum"

type_synonym RGBA = "jsnum \<times> jsnum \<times> jsnum \<times> jsnum"

text \<open>
  A colour is a string or an array of three numbers. Strings are lists of characters;
  a character is one UTF-16 code unit below 256. The white space that \<^verbatim>\<open>trim\<close> and
  \<^verbatim>\<open>parseInt\<close> skip is, among those code units, tab, line feed, vertical tab, form
  feed, carriage return, space and the no-break space U+00A0.
\<close>

datatype color = Hex string | Rgb RGB

definition isSpace :: "char \<Rightarrow> bool" where
  "isSpace c =
     (c \<in> set [CHR '' '', CHR 0x09, CHR 0x0A, CHR 0x0B, CHR 0x0C, CHR 0x0D, CHR 0xA0])"

definition trim :: "string \<Rightarrow> string" where
  "trim s = rev (dropWhile isSpace (rev (dropWhile isSpace s)))"

definition hexDigit :: "char \<Rightarrow> nat option" where
  "hexDigit c =
     (let k = of_char c :: nat in
      if 48 \<le> k \<and> k \<le> 57 then Some (k - 48)
      else if 97 \<le> k \<and> k \<le> 102 then Some (k - 87)
      else if 65 \<le> k \<and> k \<le> 70 then Some (k - 55)
      else None)"

text \<open>
  \<^verbatim>\<open>parseInt(s, 16)\<close>: leading white space, a sign, a prefix \<^verbatim>\<open>0x\<close> or \<^verbatim>\<open>0X\<close>, then the
  longest run of hexadecimal digits; \<^verbatim>\<open>NaN\<close> when that run is empty.
\<close>

definition parseInt16 :: "string \<Rightarrow> jsnum" where
  "parseInt16 s =
     (let s1 = dropWhile isSpace s;
          negative = (s1 \<noteq> [] \<and> hd s1 = CHR ''-'');
          s2 = (if s1 \<noteq> [] \<and> (hd s1 = CHR ''-'' \<or> hd s1 = CHR ''+'') then tl s1 else s1);
          s3 = (if take 2 s2 = ''0x'' \<or> take 2 s2 = ''0X'' then drop 2 s2 else s2);
          ds = takeWhile (\<lambda>c. hexDigit c \<noteq> None) s3;
          v = foldl (\<lambda>a c. 16 * a + the (hexDigit c)) 0 ds
      in if ds = [] then NaN
         else if negative then Fin (- real v) else Fin (real v))"

definition parseColor :: "color \<Rightarrow> RGB" where
  "parseColor c =
     (case c of
        Rgb v \<Rightarrow> v
      | Hex str \<Rightarrow>
          (let s = trim str;
               s = (if take 1 s = ''#'' then drop 1 s else s)
           in if length s = 3 then
                (parseInt16 [s ! 0, s ! 0], parseInt16 [s ! 1, s ! 1], parseInt16 [s ! 2, s ! 2])
              else if length s = 6 then
                (parseInt16 (take 2 s), parseInt16 (take 2 (drop 2 s)),
                 parseInt16 (take 2 (drop 4 s)))
              else (Fin 128, Fin 128, Fin 128)))"

text \<open>\<^verbatim>\<open>lerp\<close> under a rounding function; \<open>lerpR Fin\<close> is \<open>lerp\<close>.\<close>

definition lerpR :: "(real \<Rightarrow> jsnum) \<Rightarrow> jsnum \<Rightarrow> jsnum \<Rightarrow> jsnum \<Rightarrow> jsnum" where
  "lerpR rnd a b t = r_add rnd a (r_mul rnd (r_sub rnd b a) t)"

definition lerpColor :: "(real \<Rightarrow> jsnum) \<Rightarrow> RGB \<Rightarrow> RGB \<Rightarrow> jsnum \<Rightarrow> RGBA" where
  "lerpColor rnd a b t =
     (case a of (a0, a1, a2) \<Rightarrow> case b of (b0, b1, b2) \<Rightarrow>
        (js_round (lerpR rnd a0 b0 t), js_round (lerpR rnd a1 b1 t),
         js_round (lerpR rnd a2 b2 t), Fin 255))"

definition defaultColors :: "color list" where
  "defaultColors = [Hex ''#00aa00'', Hex ''#ffff00'', Hex ''#ffa500'', Hex ''#ff0000'']"

definition stopsOf :: "color list \<Rightarrow> RGB list" where
  "stopsOf colors = map parseColor (if colors \<noteq> [] then colors else defaultColors)"

text \<open>
  \<^verbatim>\<open>stops[i]\<close> for a number \<open>i\<close>: the element when \<open>i\<close> is an integer within the array,
  \<^verbatim>\<open>undefined\<close> otherwise.
\<close>

definition arrayGet :: "'a list \<Rightarrow> jsnum \<Rightarrow> 'a option" where
  "arrayGet xs i =
     (case i of
        Fin x \<Rightarrow>
          (if x = of_int \<lfloor>x\<rfloor> \<and> 0 \<le> x \<and> nat \<lfloor>x\<rfloor> < length xs
           then Some (xs ! nat \<lfloor>x\<rfloor>) else None)
      | _ \<Rightarrow> None)"

datatype error = TypeError

text \<open>
  The closure returned by \<^verbatim>\<open>createSpeedColorScale\<close>, applied to a speed, under a
  rounding function. Reading \<^verbatim>\<open>a[0]\<close> of an \<^verbatim>\<open>undefined\<close> stop in \<^verbatim>\<open>lerpColor\<close> throws
  a \<^verbatim>\<open>TypeError\<close>. \<^verbatim>\<open>Math.floor\<close> and \<^verbatim>\<open>Math.round\<close> of a double are doubles and are
  not rounded again.
\<close>

definition createSpeedColorScale ::
  "(real \<Rightarrow> jsnum) \<Rightarrow> jsnum \<Rightarrow> jsnum \<Rightarrow> color list \<Rightarrow> jsnum \<Rightarrow> error + RGBA" where
  "createSpeedColorScale rnd minSp maxSp colors sp =
     (let stops = stopsOf colors;
          n = length stops
      in if \<not> isFinite sp then Inr (Fin 128, Fin 128, Fin 128, Fin 255)
         else
           (let spanSp = js_or (r_sub rnd maxSp minSp) (Fin 1);
                u = r_div rnd (r_sub rnd sp minSp) spanSp;
                u = js_max (Fin 0) (js_min (Fin 1) u)
            in if n = 1 then
                 (case stops ! 0 of (c0, c1, c2) \<Rightarrow> Inr (c0, c1, c2, Fin 255))
               else
                 (let top = r_sub rnd (Fin (real n)) (Fin 1);
                      scaled = r_mul rnd u top;
                      i = js_floor scaled;
                      t = r_sub rnd scaled i
                  in case arrayGet stops i of
                       None \<Rightarrow> Inl TypeError
                     | Some c1 \<Rightarrow>
                         (case arrayGet stops (js_min (r_add rnd i (Fin 1)) top) of
                            None \<Rightarrow> Inl TypeError
                          | Some c2 \<Rightarrow> Inr (lerpColor rnd c1 c2 t)))))"

section \<open>findNearestPointOnTrack\<close>

text \<open>Meters per degree of latitude and of longitude, at a latitude in radians.\<close>

definition metersPerDegree :: "jsnum \<Rightarrow> jsnum \<times> jsnum" where
  "metersPerDegree la =
     (let mPerDegLat =
            js_add (js_sub (Fin 111132.92) (js_mul (Fin 559.82) (js_cos (js_mul (Fin 2) la))))
                   (js_mul (Fin 1.175) (js_cos (js_mul (Fin 4) la)));
          mPerDegLon =
            js_sub (js_mul (Fin 111412.84) (js_cos la))
                   (js_mul (Fin 93.5) (js_cos (js_mul (Fin 3) la)))
      in (mPerDegLat, mPerDegLon))"

text \<open>The factors \<open>(mPerDegLat, mPerDegLon)\<close> at the middle latitude of a segment.\<close>

definition metricOf :: "Segment \<Rightarrow> jsnum \<times> jsnum" where
  "metricOf g =
     (case path g of ((x1, y1), (x2, y2)) \<Rightarrow>
        (let latRad = js_div (js_mul (js_div (js_add y1 y2) (Fin 2)) (Fin pi)) (Fin 180)
         in metersPerDegree latRad))"

text \<open>The squared length \<^verbatim>\<open>vx * vx + vy * vy\<close> of a segment, before \<^verbatim>\<open>|| 1\<close>.\<close>

definition sqLength :: "Segment \<Rightarrow> jsnum" where
  "sqLength g =
     (case path g of ((x1, y1), (x2, y2)) \<Rightarrow>
      case metricOf g of (mPerDegLat, mPerDegLon) \<Rightarrow>
        (let vx = js_mul (js_sub x2 x1) mPerDegLon;
             vy = js_mul (js_sub y2 y1) mPerDegLat
         in js_add (js_mul vx vx) (js_mul vy vy)))"

text \<open>The divisor \<^verbatim>\<open>vLen2\<close>.\<close>

definition vLen2 :: "Segment \<Rightarrow> jsnum" where
  "vLen2 g = js_or (sqLength g) (Fin 1)"

text \<open>The projection parameter \<open>t\<close> of a query point on a segment, after the clamp.\<close>

definition projParam :: "jsnum \<Rightarrow> jsnum \<Rightarrow> Segment \<Rightarrow> jsnum" where
  "projParam qlon qlat g =
     (case path g of ((x1, y1), (x2, y2)) \<Rightarrow>
      case metricOf g of (mPerDegLat, mPerDegLon) \<Rightarrow>
        (let ax = js_mul (js_sub x1 qlon) mPerDegLon;
             ay = js_mul (js_sub y1 qlat) mPerDegLat;
             vx = js_mul (js_sub x2 x1) mPerDegLon;
             vy = js_mul (js_sub y2 y1) mPerDegLat;
             t = js_div (js_neg (js_add (js_mul ax vx) (js_mul ay vy))) (vLen2 g)
         in js_max (Fin 0) (js_min (Fin 1) t)))"

text \<open>The candidate result of a segment at a parameter \<open>t\<close>: lines 285 to 293.\<close>

definition resultAt :: "jsnum \<Rightarrow> jsnum \<Rightarrow> Segment \<Rightarrow> jsnum \<Rightarrow> NearestResult" where
  "resultAt qlon qlat g t =
     (case path g of ((x1, y1), (x2, y2)) \<Rightarrow>
      case metricOf g of (mPerDegLat, mPerDegLon) \<Rightarrow>
        (let projLon = js_add x1 (js_mul (js_sub x2 x1) t);
             projLat = js_add y1 (js_mul (js_sub y2 y1) t);
             dx = js_mul (js_sub projLon qlon) mPerDegLon;
             dy = js_mul (js_sub projLat qlat) mPerDegLat;
             dist = js_sqrt (js_add (js_mul dx dx) (js_mul dy dy));
             sp = js_add (speed0 g) (js_mul (js_sub (speed1 g) (speed0 g)) t);
             ts = js_add (time0 g) (js_mul (js_sub (time1 g) (time0 g)) t)
         in \<lparr> res_lon = projLon, res_lat = projLat, res_speed = sp,
              res_timestamp = ts, distMeters = dist \<rparr>))"

definition candidateOf :: "jsnum \<Rightarrow> jsnum \<Rightarrow> Segment \<Rightarrow> NearestResult" where
  "candidateOf qlon qlat g = resultAt qlon qlat g (projParam qlon qlat g)"

text \<open>One turn of the loop over the candidates.\<close>

definition scanStep ::
  "jsnum \<Rightarrow> jsnum \<Rightarrow> Segment \<Rightarrow> NearestResult option \<Rightarrow> NearestResult option" where
  "scanStep qlon qlat g best =
     (let c = candidateOf qlon qlat g
      in case best of
           None \<Rightarrow> Some c
         | Some b \<Rightarrow> (if js_lt (distMeters c) (distMeters b) then Some c else Some b))"

text \<open>
  \<^verbatim>\<open>set.add(seg)\<close> on a \<^verbatim>\<open>Set\<close> kept in insertion order. The source compares object
  identities; the model compares segments as values, which agrees with it whenever the
  segments of the array differ pairwise, as those of a build do by their ids.
\<close>

definition setAdd :: "'a \<Rightarrow> 'a list \<Rightarrow> 'a list" where
  "setAdd x xs = (if x \<in> set xs then xs else xs @ [x])"

text \<open>The keys of the 3x3 block around cell \<open>(gx, gy)\<close>, \<open>dx\<close> outermost.\<close>

definition blockKeys :: "jsnum \<Rightarrow> jsnum \<Rightarrow> (jsnum \<times> jsnum) list" where
  "blockKeys gx gy =
     concat (map (\<lambda>dx. map (\<lambda>dy. (js_add gx (Fin dx), js_add gy (Fin dy))) [-1, 0, 1])
                 [-1, 0, 1])"

definition gather :: "grid \<Rightarrow> (jsnum \<times> jsnum) list \<Rightarrow> Segment list" where
  "gather gi keys =
     fold (\<lambda>key acc. case gi key of None \<Rightarrow> acc | Some arr \<Rightarrow> fold setAdd arr acc) keys []"

text \<open>The candidates: those of the block when an index is given and the block holds any.\<close>

definition candidates ::
  "jsnum \<Rightarrow> jsnum \<Rightarrow> Segment list \<Rightarrow> grid option \<Rightarrow> jsnum option \<Rightarrow> Segment list" where
  "candidates qlon qlat segs gi gs =
     (case (gi, gs) of
        (Some idx, Some cell) \<Rightarrow>
          (if truthy cell then
             (let gx = js_floor (js_div qlon cell);
                  gy = js_floor (js_div qlat cell);
                  found = gather idx (blockKeys gx gy)
              in if found \<noteq> [] then found else segs)
           else segs)
      | _ \<Rightarrow> segs)"

definition findNearestPointOnTrack ::
  "jsnum \<Rightarrow> jsnum \<Rightarrow> Segment list \<Rightarrow> grid option \<Rightarrow> jsnum option \<Rightarrow> NearestResult option"
  where
  "findNearestPointOnTrack qlon qlat segs gi gs =
     (if segs = [] then None
      else fold (scanStep qlon qlat) (candidates qlon qlat segs gi gs) None)"

section \<open>The projection under a rounding function\<close>

text \<open>
  Lines 278 to 291 of \<^verbatim>\<open>findNearestPointOnTrack\<close> once more, with the rounding of the
  arithmetic as a parameter and the two factors \<^verbatim>\<open>mPerDegLat\<close>, \<^verbatim>\<open>mPerDegLon\<close> as a
  parameter \<open>m\<close> in place of what \<^verbatim>\<open>Math.cos\<close> returns. With \<open>Fin\<close> as the rounding and
  \<open>metricOf g\<close> as the factors they are the definitions above.
\<close>

text \<open>The vector \<open>(vx, vy)\<close> of a segment.\<close>

definition segVecR :: "(real \<Rightarrow> jsnum) \<Rightarrow> jsnum \<times> jsnum \<Rightarrow> Segment \<Rightarrow> jsnum \<times> jsnum" where
  "segVecR rnd m g =
     (case path g of ((x1, y1), (x2, y2)) \<Rightarrow>
      case m of (mPerDegLat, mPerDegLon) \<Rightarrow>
        (r_mul rnd (r_sub rnd x2 x1) mPerDegLon, r_mul rnd (r_sub rnd y2 y1) mPerDegLat))"

text \<open>The offset \<open>(ax, ay)\<close> of the start point from the query point.\<close>

definition queryVecR ::
  "(real \<Rightarrow> jsnum) \<Rightarrow> jsnum \<times> jsnum \<Rightarrow> jsnum \<Rightarrow> jsnum \<Rightarrow> Segment \<Rightarrow> jsnum \<times> jsnum" where
  "queryVecR rnd m qlon qlat g =
     (case path g of ((x1, y1), (x2, y2)) \<Rightarrow>
      case m of (mPerDegLat, mPerDegLon) \<Rightarrow>
        (r_mul rnd (r_sub rnd x1 qlon) mPerDegLon, r_mul rnd (r_sub rnd y1 qlat) mPerDegLat))"

definition sqLengthR :: "(real \<Rightarrow> jsnum) \<Rightarrow> jsnum \<times> jsnum \<Rightarrow> Segment \<Rightarrow> jsnum" where
  "sqLengthR rnd m g =
     (case segVecR rnd m g of (vx, vy) \<Rightarrow> r_add rnd (r_mul rnd vx vx) (r_mul rnd vy vy))"

definition vLen2R :: "(real \<Rightarrow> jsnum) \<Rightarrow> jsnum \<times> jsnum \<Rightarrow> Segment \<Rightarrow> jsnum" where
  "vLen2R rnd m g = js_or (sqLengthR rnd m g) (Fin 1)"

definition projParamR ::
  "(real \<Rightarrow> jsnum) \<Rightarrow> jsnum \<times> jsnum \<Rightarrow> jsnum \<Rightarrow> jsnum \<Rightarrow> Segment \<Rightarrow> jsnum" where
  "projParamR rnd m qlon qlat g =
     (case queryVecR rnd m qlon qlat g of (ax, ay) \<Rightarrow>
      case segVecR rnd m g of (vx, vy) \<Rightarrow>
        (let t = r_div rnd (js_neg (r_add rnd (r_mul rnd ax vx) (r_mul rnd ay vy)))
                   (vLen2R rnd m g)
         in js_max (Fin 0) (js_min (Fin 1) t)))"

text \<open>The projected point \<open>(projLon, projLat)\<close> at a parameter \<open>t\<close>.\<close>

definition projPointR :: "(real \<Rightarrow> jsnum) \<Rightarrow> Segment \<Rightarrow> jsnum \<Rightarrow> jsnum \<times> jsnum" where
  "projPointR rnd g t =
     (case path g of ((x1, y1), (x2, y2)) \<Rightarrow>
        (r_add rnd x1 (r_mul rnd (r_sub rnd x2 x1) t),
         r_add rnd y1 (r_mul rnd (r_sub rnd y2 y1) t)))"

text \<open>
  The interpolated speed and timestamp of lines 290 and 291 at a parameter \<open>t\<close>, under a
  rounding function.
\<close>

definition interpolateAt :: "(real \<Rightarrow> jsnum) \<Rightarrow> Segment \<Rightarrow> jsnum \<Rightarrow> jsnum \<times> jsnum" where
  "interpolateAt rnd g t =
     (r_add rnd (speed0 g) (r_mul rnd (r_sub rnd (speed1 g) (speed0 g)) t),
      r_add rnd (time0 g) (r_mul rnd (r_sub rnd (time1 g) (time0 g)) t))"

section \<open>Notions used in the statements\<close>

text \<open>The real number a finite value stands for.\<close>

definition realOf :: "jsnum \<Rightarrow> real" where
  "realOf x = (case x of Fin a \<Rightarrow> a | _ \<Rightarrow> 0)"

definition finitePoint :: "Point \<Rightarrow> bool" where
  "finitePoint p = (isFinite (lon p) \<and> isFinite (lat p))"

text \<open>
  The invariant of the two loops of \<^verbatim>\<open>buildSegments\<close>: \<^verbatim>\<open>minS\<close> and \<^verbatim>\<open>maxS\<close> are still
  the initial infinities or finite, and they bound the finite speeds pushed so far.
\<close>

definition speedInv :: "acc \<Rightarrow> bool" where
  "speedInv st =
     (case st of (minS, maxS, segs) \<Rightarrow>
        (minS = PInf \<or> isFinite minS) \<and> (maxS = NInf \<or> isFinite maxS) \<and>
        (\<forall>g \<in> set segs. isFinite (seg_speed g) \<longrightarrow>
           js_le minS (seg_speed g) \<and> js_le (seg_speed g) maxS))"

text \<open>The distance the loop of \<^verbatim>\<open>findNearestPointOnTrack\<close> computes for a segment.\<close>

definition distTo :: "jsnum \<Rightarrow> jsnum \<Rightarrow> Segment \<Rightarrow> jsnum" where
  "distTo qlon qlat g = distMeters (candidateOf qlon qlat g)"

text \<open>A segment of the array that is strictly nearer to the query point than every other.\<close>

definition strictlyNearest :: "jsnum \<Rightarrow> jsnum \<Rightarrow> Segment list \<Rightarrow> Segment \<Rightarrow> bool" where
  "strictlyNearest qlon qlat segs w =
     (w \<in> set segs \<and>
      (\<forall>g \<in> set segs. g \<noteq> w \<longrightarrow> js_lt (distTo qlon qlat w) (distTo qlon qlat g)))"

text \<open>The cell of a segment lies in the 3x3 block around the cell of the query point.\<close>

definition inBlock :: "jsnum \<Rightarrow> jsnum \<Rightarrow> jsnum \<Rightarrow> Segment \<Rightarrow> bool" where
  "inBlock qlon qlat gs w =
     (midKey gs w \<in> set (blockKeys (js_floor (js_div qlon gs)) (js_floor (js_div qlat gs))))"

text \<open>A colour whose channels are finite doubles.\<close>

definition dblRGB :: "(real \<Rightarrow> jsnum) \<Rightarrow> RGB \<Rightarrow> bool" where
  "dblRGB rnd c =
     (case c of (r, g, b) \<Rightarrow>
        isFinite r \<and> isFinite g \<and> isFinite b \<and> dbl rnd r \<and> dbl rnd g \<and> dbl rnd b)"

text \<open>The channel differences \<^verbatim>\<open>b[k] - a[k]\<close> of \<^verbatim>\<open>lerp\<close> from a stop to the next are finite.\<close>

definition stepFinite :: "(real \<Rightarrow> jsnum) \<Rightarrow> RGB \<Rightarrow> RGB \<Rightarrow> bool" where
  "stepFinite rnd a b =
     (case a of (a0, a1, a2) \<Rightarrow> case b of (b0, b1, b2) \<Rightarrow>
        isFinite (r_sub rnd b0 a0) \<and> isFinite (r_sub rnd b1 a1) \<and> isFinite (r_sub rnd b2 a2))"

definition finitePair :: "jsnum \<times> jsnum \<Rightarrow> bool" where
  "finitePair v = (isFinite (fst v) \<and> isFinite (snd v))"

definition roundRGB :: "RGB \<Rightarrow> RGB" where
  "roundRGB c = (case c of (r, g, b) \<Rightarrow> (js_round r, js_round g, js_round b))"

definition opaque :: "RGB \<Rightarrow> RGBA" where
  "opaque c = (case c of (r, g, b) \<Rightarrow> (r, g, b, Fin 255))"

section \<open>Example inputs\<close>

definition pt :: "jsnum \<Rightarrow> jsnum \<Rightarrow> jsnum \<Rightarrow> jsnum \<Rightarrow> Point" where
  "pt x y v ts = \<lparr> lon = x, lat = y, speed = v, timestamp = ts \<rparr>"

definition opts :: "nat \<Rightarrow> BuildSegmentsOptions" where
  "opts n = \<lparr> subdivisions = n, minSpeedOverride = None, maxSpeedOverride = None \<rparr>"

text \<open>Two samples one degree apart on the equator, speeds 0 and 10.\<close>

definition trackA :: "Point list" where
  "trackA = [pt (Fin 0) (Fin 0) (Fin 0) (Fin 0), pt (Fin 1) (Fin 0) (Fin 10) (Fin 1000)]"

definition segA0 :: Segment where
  "segA0 = \<lparr> seg_id = (0, 0), path = ((Fin 0, Fin 0), (Fin (1 / 2), Fin 0)),
             seg_speed = Fin (5 / 2), seg_timestamp = Fin 250,
             speed0 = Fin 0, speed1 = Fin 5, time0 = Fin 0, time1 = Fin 500 \<rparr>"

definition segA1 :: Segment where
  "segA1 = \<lparr> seg_id = (0, 1), path = ((Fin (1 / 2), Fin 0), (Fin 1, Fin 0)),
             seg_speed = Fin (15 / 2), seg_timestamp = Fin 750,
             speed0 = Fin 5, speed1 = Fin 10, time0 = Fin 500, time1 = Fin 1000 \<rparr>"

text \<open>The same track with no speed reading.\<close>

definition trackNaN :: "Point list" where
  "trackNaN = [pt (Fin 0) (Fin 0) NaN (Fin 0), pt (Fin 1) (Fin 0) NaN (Fin 1000)]"

text \<open>The same track with an infinite speed at its second sample.\<close>

definition trackInf :: "Point list" where
  "trackInf = [pt (Fin 0) (Fin 0) (Fin 0) (Fin 0), pt (Fin 1) (Fin 0) PInf (Fin 1000)]"

definition segInf :: Segment where
  "segInf = \<lparr> seg_id = (0, 1), path = ((Fin (1 / 2), Fin 0), (Fin 1, Fin 0)),
              seg_speed = PInf, seg_timestamp = Fin 750,
              speed0 = PInf, speed1 = PInf, time0 = Fin 500, time1 = Fin 1000 \<rparr>"

text \<open>
  A track along the equator that goes out to longitude 1/16 and comes back past its start
  to longitude -1/16.
\<close>

definition trackBack :: "Point list" where
  "trackBack = [pt (Fin 0) (Fin 0) (Fin 10) (Fin 0),
                pt (Fin (1 / 16)) (Fin 0) (Fin 20) (Fin 1000),
                pt (Fin (- (1 / 16))) (Fin 0) (Fin 60) (Fin 3000)]"

definition segOut :: Segment where
  "segOut = \<lparr> seg_id = (0, 0), path = ((Fin 0, Fin 0), (Fin (1 / 16), Fin 0)),
              seg_speed = Fin 15, seg_timestamp = Fin 500,
              speed0 = Fin 10, speed1 = Fin 20, time0 = Fin 0, time1 = Fin 1000 \<rparr>"

definition segBack :: Segment where
  "segBack = \<lparr> seg_id = (1, 0), path = ((Fin (1 / 16), Fin 0), (Fin (- (1 / 16)), Fin 0)),
               seg_speed = Fin 40, seg_timestamp = Fin 2000,
               speed0 = Fin 20, speed1 = Fin 60, time0 = Fin 1000, time1 = Fin 3000 \<rparr>"

definition gridBack :: grid where
  "gridBack = [(Fin 1, Fin 0) \<mapsto> [segOut], (Fin 0, Fin 0) \<mapsto> [segBack]]"

text \<open>A segment whose two endpoints are the same point.\<close>

definition segDot :: Segment where
  "segDot = \<lparr> seg_id = (0, 0), path = ((Fin 0, Fin 0), (Fin 0, Fin 0)),
              seg_speed = Fin 0, seg_timestamp = Fin 500,
              speed0 = Fin 0, speed1 = Fin 0, time0 = Fin 0, time1 = Fin 1000 \<rparr>"

definition blackWhite :: "color list" where
  "blackWhite = [Hex ''#000000'', Hex ''#ffffff'']"

definition blackBroken :: "color list" where
  "blackBroken = [Hex ''#000000'', Hex ''#gggggg'']"

definition blackInf :: "color list" where
  "blackInf = [Rgb (Fin 0, Fin 0, Fin 0), Rgb (PInf, Fin 255, Fin 255)]"

text \<open>A segment of \<open>2 ^ -600\<close> degrees along the equator.\<close>

definition segTiny :: Segment where
  "segTiny = \<lparr> seg_id = (0, 0), path = ((Fin 0, Fin 0), (Fin (1 / 2 ^ 600), Fin 0)),
               seg_speed = Fin 0, seg_timestamp = Fin 500,
               speed0 = Fin 0, speed1 = Fin 0, time0 = Fin 0, time1 = Fin 1000 \<rparr>"

text \<open>
  The two factors at latitude 0, where the cosine is 1: \<open>111132.92 - 559.82 + 1.175\<close> and
  \<open>111412.84 - 93.5\<close>.
\<close>

definition metricEquator :: "jsnum \<times> jsnum" where
  "metricEquator = (Fin 110574.275, Fin 111319.34)"

text \<open>A segment whose two speeds are finite and whose difference of speeds is not.\<close>

definition segHuge :: Segment where
  "segHuge = \<lparr> seg_id = (0, 0), path = ((Fin 0, Fin 0), (Fin 1, Fin 0)),
               seg_speed = Fin 0, seg_timestamp = Fin 500,
               speed0 = Fin (- (2 ^ 1023)), speed1 = Fin (2 ^ 1023),
               time0 = Fin 0, time1 = Fin 1000 \<rparr>"

section \<open>Facts about the numbers\<close>

lemma isFinite_iff: "isFinite y \<longleftrightarrow> (\<exists>a. y = Fin a)"
  by (cases y) simp_all

lemma js_sub_Fin: "js_sub (Fin a) (Fin b) = Fin (a - b)"
  by (simp add: js_sub_def)

lemma js_lt_irrefl: "\<not> js_lt x x"
  by (cases x) simp_all

lemma js_lt_asym: "js_lt x y \<Longrightarrow> \<not> js_lt y x"
  by (cases x; cases y) simp_all

section \<open>The segments of a build\<close>

lemma segs_pushSegment: "snd (snd (pushSegment g st)) = snd (snd st) @ [g]"
  by (cases st) (simp add: pushSegment_def)

lemma segs_fold_push:
  "snd (snd (fold (\<lambda>s. pushSegment (f s)) xs st)) = snd (snd st) @ map f xs"
  by (induction xs arbitrary: st) (simp_all add: segs_pushSegment)

lemma segs_innerLoop:
  "snd (snd (innerLoop a b n i st)) = snd (snd st) @ map (mkSegment a b n i) [0..<n]"
  by (simp add: innerLoop_def segs_fold_push)

lemma segs_fold_inner:
  "snd (snd (fold (\<lambda>i. innerLoop (f i) (g i) n i) xs st)) =
     snd (snd st) @ concat (map (\<lambda>i. map (mkSegment (f i) (g i) n i) [0..<n]) xs)"
  by (induction xs arbitrary: st) (simp_all add: segs_innerLoop)

lemma segs_outerLoop:
  "snd (snd (outerLoop points n st)) =
     snd (snd st) @
     concat (map (\<lambda>i. map (mkSegment (points ! i) (points ! (i + 1)) n i) [0..<n])
                 [0..<length points - 1])"
  by (simp add: outerLoop_def segs_fold_inner)

text \<open>The array \<^verbatim>\<open>segs\<close> of a build over at least two samples, in closed form.\<close>

lemma segments_buildSegments:
  "2 \<le> length points \<Longrightarrow>
   segments (buildSegments points options) =
     concat (map (\<lambda>i. map (mkSegment (points ! i) (points ! (i + 1)) (subdivisions options) i)
                            [0..<subdivisions options])
                 [0..<length points - 1])"
  using segs_outerLoop [of points "subdivisions options" "(PInf, NInf, [])"]
  by (auto simp add: buildSegments_def Let_def split: prod.splits)

lemma length_concat_uniform:
  "(\<And>x. x \<in> set xs \<Longrightarrow> length (f x) = n) \<Longrightarrow> length (concat (map f xs)) = length xs * n"
  by (induction xs) simp_all

lemma nth_concat_uniform:
  "(\<And>j. j < m \<Longrightarrow> length (f j) = n) \<Longrightarrow> i < m \<Longrightarrow> s < n \<Longrightarrow>
   concat (map f [0..<m]) ! (i * n + s) = f i ! s"
proof (induction m)
  case 0
  then show ?case by simp
next
  case (Suc m)
  have len: "length (concat (map f [0..<m])) = m * n"
    using length_concat_uniform [of "[0..<m]" f n] Suc.prems(1) by simp
  show ?case
  proof (cases "i < m")
    case True
    then have "Suc i \<le> m" by simp
    then have "Suc i * n \<le> m * n" by (rule mult_le_mono1)
    with Suc.prems(3) have "i * n + s < m * n" by simp
    with True Suc show ?thesis by (simp add: nth_append len)
  next
    case False
    with Suc.prems have "i = m" by simp
    then show ?thesis using Suc.prems by (simp add: nth_append len)
  qed
qed

text \<open>The segment at position \<open>i * n + s\<close> is the one pushed for the counters \<open>i\<close>, \<open>s\<close>.\<close>

lemma nth_segments:
  assumes "2 \<le> length points" "i < length points - 1" "s < subdivisions options"
  shows "segments (buildSegments points options) ! (i * subdivisions options + s) =
           mkSegment (points ! i) (points ! (i + 1)) (subdivisions options) i s"
proof -
  let ?n = "subdivisions options"
  let ?f = "\<lambda>i. map (mkSegment (points ! i) (points ! (i + 1)) ?n i) [0..<?n]"
  have "concat (map ?f [0..<length points - 1]) ! (i * ?n + s) = ?f i ! s"
    by (rule nth_concat_uniform) (use assms in simp_all)
  then show ?thesis
    using assms by (simp add: segments_buildSegments)
qed

text \<open>When \<^verbatim>\<open>segs\<close> is not empty the result is that of the main path.\<close>

lemma build_nonempty:
  assumes "segments (buildSegments points options) \<noteq> []"
  shows "gridIndex (buildSegments points options) =
           buildGrid (Fin 0.02) (segments (buildSegments points options)) \<and>
         gridSize (buildSegments points options) = Fin 0.02"
proof -
  from assms have "\<not> length points < 2" by (auto simp: buildSegments_def)
  then show ?thesis by (simp add: buildSegments_def Let_def split: prod.splits)
qed

subsection \<open>The builds of the example tracks\<close>

lemmas build_simps = buildSegments_def outerLoop_def innerLoop_def pushSegment_def
  mkSegment_def lerp_def js_sub_def Let_def pt_def opts_def

lemma upt_0_2: "[0..<2] = [0, Suc 0]"
  by (simp add: upt_rec numeral_2_eq_2)

lemma segments_trackA: "segments (buildSegments trackA (opts 2)) = [segA0, segA1]"
  by (simp add: trackA_def build_simps upt_0_2 segA0_def segA1_def)

lemma speeds_trackA:
  "minSpeed (buildSegments trackA (opts 2)) = Fin (5 / 2) \<and>
   maxSpeed (buildSegments trackA (opts 2)) = Fin (15 / 2)"
  by (simp add: trackA_def build_simps upt_0_2)

lemma segments_trackInf: "segments (buildSegments trackInf (opts 2)) ! 1 = segInf"
  by (simp add: trackInf_def build_simps upt_0_2 segInf_def inf_times_def)

lemma segments_trackBack: "segments (buildSegments trackBack (opts 1)) = [segOut, segBack]"
  by (simp add: trackBack_def build_simps upt_0_2 segOut_def segBack_def)

lemma gridIndex_trackBack: "gridIndex (buildSegments trackBack (opts 1)) = gridBack"
  by (simp add: trackBack_def build_simps upt_0_2 segOut_def segBack_def gridBack_def
      buildGrid_def gridInsert_def midKey_def cellKey_def)

lemma gridSize_trackBack: "gridSize (buildSegments trackBack (opts 1)) = Fin (1 / 50)"
  by (simp add: trackBack_def build_simps)

section \<open>Number of segments\<close>

text \<open>
  Claim C1. For a sample sequence of length at least 2 and a subdivisions value
  \<open>n \<ge> 1\<close>, the segments array of \<^verbatim>\<open>buildSegments\<close> has length
  \<open>(samples.length - 1) * n\<close>.
\<close>

theorem buildSegments_length:
  assumes "2 \<le> length points" "1 \<le> subdivisions options"
  shows "length (segments (buildSegments points options)) =
           (length points - 1) * subdivisions options"
  using assms by (simp add: segments_buildSegments length_concat_uniform)

theorem buildSegments_length_witness:
  "length (segments (buildSegments trackA (opts 2))) = 2"
  using buildSegments_length [of trackA "opts 2"] by (simp add: trackA_def opts_def)

section \<open>Continuity at a shared subdivision boundary\<close>

text \<open>
  Claim C2. In a build over at least 2 samples with subdivisions \<open>n \<ge> 1\<close>, take two
  adjacent segments of the same sample pair \<open>i\<close>, with sub-indices \<open>s\<close> and \<open>s + 1\<close>:
  they stand at positions \<open>i * n + s\<close> and \<open>i * n + s + 1\<close> of the array and carry the ids
  \<open>(i, s)\<close> and \<open>(i, s + 1)\<close>. The \<^verbatim>\<open>speed1\<close> of the first is the \<^verbatim>\<open>speed0\<close> of the second,
  its \<^verbatim>\<open>time1\<close> is the \<^verbatim>\<open>time0\<close> of the second, and its end coordinate is the start
  coordinate of the second. Equality is that of the values: at a boundary where the
  interpolation yields \<^verbatim>\<open>NaN\<close>, both fields hold \<^verbatim>\<open>NaN\<close>.
\<close>

theorem adjacent_segments_continuous:
  assumes "2 \<le> length points" "1 \<le> subdivisions options"
    and "i < length points - 1" "s + 1 < subdivisions options"
    and "segs = segments (buildSegments points options)"
    and "k = i * subdivisions options + s"
  shows "seg_id (segs ! k) = (i, s) \<and> seg_id (segs ! (k + 1)) = (i, s + 1) \<and>
         speed1 (segs ! k) = speed0 (segs ! (k + 1)) \<and>
         time1 (segs ! k) = time0 (segs ! (k + 1)) \<and>
         snd (path (segs ! k)) = fst (path (segs ! (k + 1)))"
proof -
  let ?n = "subdivisions options"
  have a: "segs ! k = mkSegment (points ! i) (points ! (i + 1)) ?n i s"
    using assms nth_segments [of points i s options] by simp
  have "k + 1 = i * ?n + (s + 1)" using assms by simp
  then have b: "segs ! (k + 1) = mkSegment (points ! i) (points ! (i + 1)) ?n i (s + 1)"
    using assms nth_segments [of points i "s + 1" options] by simp
  show ?thesis
    unfolding a b by (simp add: mkSegment_def Let_def)
qed

theorem adjacent_segments_continuous_witness:
  "speed1 (segments (buildSegments trackA (opts 2)) ! 0) = Fin 5 \<and>
   speed0 (segments (buildSegments trackA (opts 2)) ! 1) = Fin 5 \<and>
   time1 (segments (buildSegments trackA (opts 2)) ! 0) =
     time0 (segments (buildSegments trackA (opts 2)) ! 1) \<and>
   snd (path (segments (buildSegments trackA (opts 2)) ! 0)) =
     fst (path (segments (buildSegments trackA (opts 2)) ! 1))"
  using adjacent_segments_continuous
    [of trackA "opts 2" 0 0 "segments (buildSegments trackA (opts 2))" 0]
  by (simp add: trackA_def opts_def segments_trackA [unfolded trackA_def opts_def] segA0_def)

section \<open>Fewer than two samples\<close>

text \<open>
  Claim C4. For an input with fewer than 2 samples, the empty one included,
  \<^verbatim>\<open>buildSegments\<close> returns exactly: no segments, \<^verbatim>\<open>minSpeed\<close> the override if one is
  supplied and 0 otherwise, \<^verbatim>\<open>maxSpeed\<close> the override if one is supplied and 1
  otherwise, the view with longitude 0, latitude 0, zoom 2, pitch 0 and bearing 0, an
  empty grid index and the grid size 0.05.
\<close>

theorem buildSegments_degenerate:
  assumes "length points < 2"
  shows "buildSegments points options =
     \<lparr> segments = [],
       minSpeed = (case minSpeedOverride options of Some v \<Rightarrow> v | None \<Rightarrow> Fin 0),
       maxSpeed = (case maxSpeedOverride options of Some v \<Rightarrow> v | None \<Rightarrow> Fin 1),
       initialViewState =
         \<lparr> longitude = Fin 0, latitude = Fin 0, zoom = Fin 2, pitch = Fin 0, bearing = Fin 0 \<rparr>,
       gridIndex = Map.empty,
       gridSize = Fin 0.05 \<rparr>"
  using assms by (cases "minSpeedOverride options"; cases "maxSpeedOverride options")
     (simp_all add: buildSegments_def)

theorem buildSegments_degenerate_witness:
  "segments (buildSegments [pt (Fin 3) (Fin 4) (Fin 50) (Fin 0)]
      \<lparr> subdivisions = 4, minSpeedOverride = Some (Fin 20), maxSpeedOverride = None \<rparr>) = [] \<and>
   minSpeed (buildSegments [pt (Fin 3) (Fin 4) (Fin 50) (Fin 0)]
      \<lparr> subdivisions = 4, minSpeedOverride = Some (Fin 20), maxSpeedOverride = None \<rparr>) = Fin 20 \<and>
   maxSpeed (buildSegments [pt (Fin 3) (Fin 4) (Fin 50) (Fin 0)]
      \<lparr> subdivisions = 4, minSpeedOverride = Some (Fin 20), maxSpeedOverride = None \<rparr>) = Fin 1 \<and>
   zoom (initialViewState (buildSegments [pt (Fin 3) (Fin 4) (Fin 50) (Fin 0)]
      \<lparr> subdivisions = 4, minSpeedOverride = Some (Fin 20), maxSpeedOverride = None \<rparr>)) = Fin 2"
  using buildSegments_degenerate [of "[pt (Fin 3) (Fin 4) (Fin 50) (Fin 0)]"
      "\<lparr> subdivisions = 4, minSpeedOverride = Some (Fin 20), maxSpeedOverride = None \<rparr>"]
  by simp

section \<open>The speed domain bounds the finite midpoint speeds\<close>

lemma speedInv_push: "speedInv st \<Longrightarrow> speedInv (pushSegment g st)"
proof -
  assume inv: "speedInv st"
  obtain mn mx segs where st: "st = (mn, mx, segs)" by (cases st) auto
  show ?thesis
  proof (cases "seg_speed g")
    case (Fin x)
    from inv st have mn: "mn = PInf \<or> (\<exists>a. mn = Fin a)" and mx: "mx = NInf \<or> (\<exists>b. mx = Fin b)"
      and old: "\<And>h. h \<in> set segs \<Longrightarrow> isFinite (seg_speed h) \<Longrightarrow>
                  js_le mn (seg_speed h) \<and> js_le (seg_speed h) mx"
      by (auto simp: speedInv_def isFinite_iff)
    have new: "pushSegment g st = (js_min mn (Fin x), js_max mx (Fin x), segs @ [g])"
      using st Fin by (simp add: pushSegment_def)
    have 1: "js_min mn (Fin x) = PInf \<or> isFinite (js_min mn (Fin x))"
      using mn by (auto split: if_splits)
    have 2: "js_max mx (Fin x) = NInf \<or> isFinite (js_max mx (Fin x))"
      using mx by (auto split: if_splits)
    have 3: "js_le (js_min mn (Fin x)) (Fin x) \<and> js_le (Fin x) (js_max mx (Fin x))"
      using mn mx by auto
    have 4: "js_le (js_min mn (Fin x)) (seg_speed h) \<and> js_le (seg_speed h) (js_max mx (Fin x))"
      if "h \<in> set segs" "isFinite (seg_speed h)" for h
      using old [OF that] that(2) mn mx by (auto simp: isFinite_iff)
    show ?thesis
      unfolding new speedInv_def using 1 2 3 4 Fin by auto
  next
    case PInf
    with inv st show ?thesis by (simp add: speedInv_def pushSegment_def)
  next
    case NInf
    with inv st show ?thesis by (simp add: speedInv_def pushSegment_def)
  next
    case NaN
    with inv st show ?thesis by (simp add: speedInv_def pushSegment_def)
  qed
qed

lemma speedInv_fold_push:
  "speedInv st \<Longrightarrow> speedInv (fold (\<lambda>s. pushSegment (f s)) xs st)"
  by (induction xs arbitrary: st) (simp_all add: speedInv_push)

lemma speedInv_innerLoop: "speedInv st \<Longrightarrow> speedInv (innerLoop a b n i st)"
  by (simp add: innerLoop_def speedInv_fold_push)

lemma speedInv_fold_inner:
  "speedInv st \<Longrightarrow> speedInv (fold (\<lambda>i. innerLoop (f i) (g i) n i) xs st)"
  by (induction xs arbitrary: st) (simp_all add: speedInv_innerLoop)

lemma speedInv_outerLoop: "speedInv (outerLoop points n (PInf, NInf, []))"
  unfolding outerLoop_def by (rule speedInv_fold_inner) (simp add: speedInv_def)

text \<open>
  Claim C5, as the code has it. In a build over at least 2 samples with subdivisions
  \<open>n \<ge> 1\<close> and neither override supplied, every segment whose midpoint speed is finite has
  \<^verbatim>\<open>minSpeed <= speed <= maxSpeed\<close>. The loop leaves a midpoint speed that is not finite
  out of the running minimum and maximum (the guard \<^verbatim>\<open>Number.isFinite(segSpeed)\<close>), and
  no comparison with \<^verbatim>\<open>NaN\<close> holds.
\<close>

theorem speed_domain_bounds_finite_speeds:
  assumes "2 \<le> length points" "1 \<le> subdivisions options"
    and "minSpeedOverride options = None" "maxSpeedOverride options = None"
    and "r = buildSegments points options"
    and "g \<in> set (segments r)" "isFinite (seg_speed g)"
  shows "js_le (minSpeed r) (seg_speed g) \<and> js_le (seg_speed g) (maxSpeed r)"
proof -
  obtain mn mx segs
    where out: "outerLoop points (subdivisions options) (PInf, NInf, []) = (mn, mx, segs)"
    by (cases "outerLoop points (subdivisions options) (PInf, NInf, [])") auto
  have inv: "speedInv (mn, mx, segs)"
    using speedInv_outerLoop [of points "subdivisions options"] out by simp
  have segs: "segments r = segs" and mnr: "minSpeed r = (if \<not> isFinite mn then Fin 0 else mn)"
    and mxr: "maxSpeed r = (if \<not> isFinite mx then Fin 1 else mx)"
    using assms out by (simp_all add: buildSegments_def Let_def)
  from inv assms(6,7) segs have le: "js_le mn (seg_speed g) \<and> js_le (seg_speed g) mx"
    by (auto simp: speedInv_def)
  obtain x where x: "seg_speed g = Fin x" using assms(7) by (auto simp: isFinite_iff)
  from inv have "mn = PInf \<or> isFinite mn" "mx = NInf \<or> isFinite mx"
    by (simp_all add: speedInv_def)
  with le x have "isFinite mn" "isFinite mx"
    by auto
  with le show ?thesis by (simp add: mnr mxr)
qed

theorem speed_domain_bounds_finite_speeds_witness:
  "js_le (minSpeed (buildSegments trackA (opts 2))) (seg_speed segA1) \<and>
   js_le (seg_speed segA1) (maxSpeed (buildSegments trackA (opts 2))) \<and>
   seg_speed segA1 = Fin (15 / 2)"
  using speed_domain_bounds_finite_speeds
    [of trackA "opts 2" "buildSegments trackA (opts 2)" segA1]
  by (simp add: segments_trackA) (simp add: trackA_def opts_def segA1_def)

text \<open>
  The claim as stated fails on a track whose samples carry no speed: the one segment has
  the midpoint speed \<^verbatim>\<open>NaN\<close>, the domain is the default \<open>[0, 1]\<close>, and \<^verbatim>\<open>0 <= NaN\<close> is
  false.
\<close>

theorem speed_domain_counterexample:
  "2 \<le> length trackNaN \<and> 1 \<le> subdivisions (opts 1) \<and>
   minSpeedOverride (opts 1) = None \<and> maxSpeedOverride (opts 1) = None \<and>
   length (segments (buildSegments trackNaN (opts 1))) = 1 \<and>
   seg_speed (segments (buildSegments trackNaN (opts 1)) ! 0) = NaN \<and>
   minSpeed (buildSegments trackNaN (opts 1)) = Fin 0 \<and>
   maxSpeed (buildSegments trackNaN (opts 1)) = Fin 1 \<and>
   \<not> js_le (minSpeed (buildSegments trackNaN (opts 1)))
           (seg_speed (segments (buildSegments trackNaN (opts 1)) ! 0))"
  by (simp add: trackNaN_def build_simps)

section \<open>Subdivisions 0\<close>

lemma fold_bboxStep_Fin:
  assumes "\<forall>p \<in> set ps. finitePoint p"
  shows "fold bboxStep ps (Fin a, Fin b, Fin c, Fin d) =
           (Fin (fold min (map (\<lambda>p. realOf (lon p)) ps) a),
            Fin (fold max (map (\<lambda>p. realOf (lon p)) ps) b),
            Fin (fold min (map (\<lambda>p. realOf (lat p)) ps) c),
            Fin (fold max (map (\<lambda>p. realOf (lat p)) ps) d))"
  using assms
proof (induction ps arbitrary: a b c d)
  case Nil
  then show ?case by simp
next
  case (Cons p ps)
  from Cons.prems obtain x y where xy: "lon p = Fin x" "lat p = Fin y"
    by (auto simp: finitePoint_def isFinite_iff)
  have step: "bboxStep p (Fin a, Fin b, Fin c, Fin d) =
                (Fin (min x a), Fin (max x b), Fin (min y c), Fin (max y d))"
    by (auto simp: bboxStep_def xy js_gt_def min_def max_def)
  from Cons.prems have "\<forall>q \<in> set ps. finitePoint q" by simp
  from Cons.IH [OF this] show ?case
    by (simp add: step xy realOf_def)
qed

text \<open>
  For samples with finite coordinates the loop over the samples computes the least and
  the greatest longitude and latitude.
\<close>

lemma boundingBox_finite:
  assumes "points \<noteq> []" "\<forall>p \<in> set points. finitePoint p"
  shows "boundingBox points =
           (Fin (Min ((\<lambda>p. realOf (lon p)) ` set points)),
            Fin (Max ((\<lambda>p. realOf (lon p)) ` set points)),
            Fin (Min ((\<lambda>p. realOf (lat p)) ` set points)),
            Fin (Max ((\<lambda>p. realOf (lat p)) ` set points)))"
proof -
  from assms(1) obtain p ps where ps: "points = p # ps" by (cases points) auto
  from assms(2) ps obtain x y where xy: "lon p = Fin x" "lat p = Fin y"
    by (auto simp: finitePoint_def isFinite_iff)
  have first: "bboxStep p (PInf, NInf, PInf, NInf) = (Fin x, Fin x, Fin y, Fin y)"
    by (simp add: bboxStep_def xy js_gt_def)
  from assms(2) ps have rest: "\<forall>q \<in> set ps. finitePoint q" by simp
  have mn: "Min (f ` set (p # ps)) = fold min (map f ps) (f p)"
    and mx: "Max (f ` set (p # ps)) = fold max (map f ps) (f p)" for f :: "Point \<Rightarrow> real"
    using Min.set_eq_fold [of "f p" "map f ps"] Max.set_eq_fold [of "f p" "map f ps"]
    by simp_all
  show ?thesis
    unfolding ps mn mx
    by (simp add: boundingBox_def first fold_bboxStep_Fin [OF rest] xy realOf_def)
qed

lemma zoomOf_not_2: "zoomOf s \<noteq> Fin 2"
  by (simp add: zoomOf_def Let_def)

lemma outerLoop_0: "outerLoop points 0 st = st"
proof -
  have "fold (\<lambda>i. innerLoop (f i) (g i) 0 i) xs st = st" for f g xs
    by (induction xs) (simp_all add: innerLoop_def)
  then show ?thesis by (simp add: outerLoop_def)
qed

text \<open>
  Claim C10. For a sample sequence of length at least 2 and subdivisions 0,
  \<^verbatim>\<open>buildSegments\<close> returns: no segments; \<^verbatim>\<open>minSpeed\<close> 0 and \<^verbatim>\<open>maxSpeed\<close> 1 when no
  override is supplied; and the view computed from the bounding box of the samples,
  which is never the view of the degenerate input (its zoom is not 2). For samples with
  finite coordinates the centre of that view is the midpoint of the least and the
  greatest longitude, and of the least and the greatest latitude.
\<close>

theorem buildSegments_zero_subdivisions:
  assumes "2 \<le> length points" "subdivisions options = 0"
    and "r = buildSegments points options"
  shows "segments r = [] \<and>
         (minSpeedOverride options = None \<and> maxSpeedOverride options = None \<longrightarrow>
            minSpeed r = Fin 0 \<and> maxSpeed r = Fin 1) \<and>
         initialViewState r = viewOf points \<and>
         zoom (initialViewState r) \<noteq> Fin 2 \<and>
         ((\<forall>p \<in> set points. finitePoint p) \<longrightarrow>
            longitude (initialViewState r) =
              Fin ((Min ((\<lambda>p. realOf (lon p)) ` set points) +
                    Max ((\<lambda>p. realOf (lon p)) ` set points)) / 2) \<and>
            latitude (initialViewState r) =
              Fin ((Min ((\<lambda>p. realOf (lat p)) ` set points) +
                    Max ((\<lambda>p. realOf (lat p)) ` set points)) / 2))"
proof -
  have r: "r = \<lparr> segments = [],
                 minSpeed = nullish (minSpeedOverride options) (Fin 0),
                 maxSpeed = nullish (maxSpeedOverride options) (Fin 1),
                 initialViewState = viewOf points,
                 gridIndex = buildGrid (Fin 0.02) [],
                 gridSize = Fin 0.02 \<rparr>"
    using assms by (simp add: buildSegments_def outerLoop_0 Let_def)
  have ne: "points \<noteq> []" using assms(1) by auto
  have view: "longitude (viewOf points) =
              Fin ((Min ((\<lambda>p. realOf (lon p)) ` set points) +
                    Max ((\<lambda>p. realOf (lon p)) ` set points)) / 2) \<and>
            latitude (viewOf points) =
              Fin ((Min ((\<lambda>p. realOf (lat p)) ` set points) +
                    Max ((\<lambda>p. realOf (lat p)) ` set points)) / 2)"
    if "\<forall>p \<in> set points. finitePoint p"
    by (simp add: viewOf_def boundingBox_finite [OF ne that] Let_def)
  have z: "zoom (viewOf points) \<noteq> Fin 2"
    by (simp add: viewOf_def Let_def zoomOf_not_2 split: prod.splits)
  show ?thesis
    using view z by (simp add: r)
qed

theorem buildSegments_zero_subdivisions_witness:
  "segments (buildSegments trackA (opts 0)) = [] \<and>
   minSpeed (buildSegments trackA (opts 0)) = Fin 0 \<and>
   maxSpeed (buildSegments trackA (opts 0)) = Fin 1 \<and>
   longitude (initialViewState (buildSegments trackA (opts 0))) = Fin (1 / 2) \<and>
   latitude (initialViewState (buildSegments trackA (opts 0))) = Fin 0 \<and>
   zoom (initialViewState (buildSegments trackA (opts 0))) \<noteq> Fin 2"
proof -
  have len: "2 \<le> length trackA" and sub: "subdivisions (opts 0) = 0"
    and none: "minSpeedOverride (opts 0) = None \<and> maxSpeedOverride (opts 0) = None"
    and fin: "\<forall>p \<in> set trackA. finitePoint p"
    by (simp_all add: trackA_def opts_def pt_def finitePoint_def)
  have lons: "(\<lambda>p. realOf (lon p)) ` set trackA = {0, 1}"
    and lats: "(\<lambda>p. realOf (lat p)) ` set trackA = {0}"
    by (simp_all add: trackA_def pt_def realOf_def)
  from buildSegments_zero_subdivisions [OF len sub refl] none fin
  show ?thesis
    by (auto simp add: lons lats)
qed

section \<open>The result is absent only for an empty array\<close>

lemma scanStep_Some: "scanStep qlon qlat g best \<noteq> None"
  by (simp add: scanStep_def Let_def split: option.splits)

lemma scan_nonempty: "L \<noteq> [] \<Longrightarrow> fold (scanStep qlon qlat) L best \<noteq> None"
proof (induction L arbitrary: best rule: rev_induct)
  case Nil
  then show ?case by simp
next
  case (snoc g L)
  then show ?case by (simp add: scanStep_Some)
qed

lemma candidates_nonempty: "segs \<noteq> [] \<Longrightarrow> candidates qlon qlat segs gi gs \<noteq> []"
  by (simp add: candidates_def Let_def split: option.splits)

text \<open>
  Claim C7. \<^verbatim>\<open>findNearestPointOnTrack\<close> returns \<^verbatim>\<open>null\<close> if and only if the segments
  array is empty: for a non-empty array it returns a result, whatever the query point,
  the index and the cell size.
\<close>

theorem nearest_absent_iff_empty:
  "(findNearestPointOnTrack qlon qlat segs gi gs = None) = (segs = [])"
  by (simp add: findNearestPointOnTrack_def scan_nonempty candidates_nonempty)

theorem nearest_absent_iff_empty_witness:
  "findNearestPointOnTrack (Fin 0) (Fin 0) [] (Some gridBack) (Some (Fin (1 / 50))) = None \<and>
   findNearestPointOnTrack NaN (Fin 0) [segOut, segBack] (Some gridBack) (Some (Fin (1 / 50)))
     \<noteq> None"
  using nearest_absent_iff_empty [of "Fin 0" "Fin 0" "[]" "Some gridBack" "Some (Fin (1 / 50))"]
    nearest_absent_iff_empty [of NaN "Fin 0" "[segOut, segBack]" "Some gridBack"
      "Some (Fin (1 / 50))"]
  by simp

section \<open>Evaluating the projection on the equator\<close>

lemma metersPerDegree_0: "metersPerDegree (Fin 0) = (Fin 110574.275, Fin 111319.34)"
  by (simp add: metersPerDegree_def js_sub_def)

lemmas nearest_simps = candidateOf_def resultAt_def projParam_def vLen2_def sqLength_def
  metricOf_def metersPerDegree_0 js_sub_def js_or_def Let_def

lemma candidate_segOut:
  "candidateOf (Fin (1 / 32)) (Fin 0) segOut =
     \<lparr> res_lon = Fin (1 / 32), res_lat = Fin 0, res_speed = Fin 15,
       res_timestamp = Fin 500, distMeters = Fin 0 \<rparr>"
  by (simp add: nearest_simps segOut_def)

lemma candidate_segBack:
  "candidateOf (Fin (1 / 32)) (Fin 0) segBack =
     \<lparr> res_lon = Fin (1 / 32), res_lat = Fin 0, res_speed = Fin 30,
       res_timestamp = Fin 1500, distMeters = Fin 0 \<rparr>"
  by (simp add: nearest_simps segBack_def)

lemma gather_gridBack: "gather gridBack (blockKeys (Fin 1) (Fin 0)) = [segBack, segOut]"
  by (simp add: gather_def blockKeys_def setAdd_def gridBack_def segOut_def segBack_def)

lemma candidate_segA0:
  "candidateOf (Fin (1 / 4)) (Fin 0) segA0 =
     \<lparr> res_lon = Fin (1 / 4), res_lat = Fin 0, res_speed = Fin (5 / 2),
       res_timestamp = Fin 250, distMeters = Fin 0 \<rparr>"
  by (simp add: nearest_simps segA0_def)

lemma dist_segA1: "js_lt (Fin 0) (distTo (Fin (1 / 4)) (Fin 0) segA1)"
  by (simp add: distTo_def nearest_simps segA1_def)

section \<open>The scan with and without the index\<close>

text \<open>Once the strictly nearest segment is the best so far, it stays so.\<close>

lemma scan_keeps:
  assumes "\<forall>g \<in> set L. g \<noteq> w \<longrightarrow> js_lt (distTo qlon qlat w) (distTo qlon qlat g)"
  shows "fold (scanStep qlon qlat) L (Some (candidateOf qlon qlat w)) =
           Some (candidateOf qlon qlat w)"
  using assms
proof (induction L)
  case Nil
  then show ?case by simp
next
  case (Cons g L)
  have "scanStep qlon qlat g (Some (candidateOf qlon qlat w)) = Some (candidateOf qlon qlat w)"
  proof (cases "g = w")
    case True
    then show ?thesis by (simp add: scanStep_def Let_def js_lt_irrefl)
  next
    case False
    with Cons.prems have "js_lt (distTo qlon qlat w) (distTo qlon qlat g)" by simp
    then have "\<not> js_lt (distTo qlon qlat g) (distTo qlon qlat w)" by (rule js_lt_asym)
    then show ?thesis by (simp add: scanStep_def Let_def distTo_def)
  qed
  with Cons show ?case by simp
qed

text \<open>
  A scan over any list that holds the strictly nearest segment returns the candidate of
  that segment, from any best so far that is absent, that candidate, or farther away.
\<close>

lemma scan_finds:
  assumes "w \<in> set L"
    and "\<forall>g \<in> set L. g \<noteq> w \<longrightarrow> js_lt (distTo qlon qlat w) (distTo qlon qlat g)"
    and "best = None \<or> best = Some (candidateOf qlon qlat w) \<or>
         (\<exists>b. best = Some b \<and> js_lt (distTo qlon qlat w) (distMeters b))"
  shows "fold (scanStep qlon qlat) L best = Some (candidateOf qlon qlat w)"
  using assms
proof (induction L arbitrary: best)
  case Nil
  then show ?case by simp
next
  case (Cons g L)
  show ?case
  proof (cases "g = w")
    case True
    have "scanStep qlon qlat w best = Some (candidateOf qlon qlat w)"
      using Cons.prems(3) by (auto simp: scanStep_def Let_def js_lt_irrefl distTo_def)
    moreover have "\<forall>h \<in> set L. h \<noteq> w \<longrightarrow> js_lt (distTo qlon qlat w) (distTo qlon qlat h)"
      using Cons.prems(2) by simp
    ultimately show ?thesis using True scan_keeps [of L w qlon qlat] by simp
  next
    case False
    with Cons.prems have lt: "js_lt (distTo qlon qlat w) (distTo qlon qlat g)"
      and w: "w \<in> set L"
      and rest: "\<forall>h \<in> set L. h \<noteq> w \<longrightarrow> js_lt (distTo qlon qlat w) (distTo qlon qlat h)"
      by simp_all
    from lt have nlt: "\<not> js_lt (distTo qlon qlat g) (distTo qlon qlat w)" by (rule js_lt_asym)
    let ?b = "scanStep qlon qlat g best"
    have "?b = None \<or> ?b = Some (candidateOf qlon qlat w) \<or>
         (\<exists>b. ?b = Some b \<and> js_lt (distTo qlon qlat w) (distMeters b))"
      using Cons.prems(3) lt nlt
      by (auto simp: scanStep_def Let_def distTo_def split: if_splits)
    from Cons.IH [OF w rest this] show ?thesis by simp
  qed
qed

lemma set_fold_setAdd: "set (fold setAdd arr acc) = set arr \<union> set acc"
  by (induction arr arbitrary: acc) (auto simp: setAdd_def)

lemma set_gather_acc:
  "set (fold (\<lambda>key acc. case gi key of None \<Rightarrow> acc | Some arr \<Rightarrow> fold setAdd arr acc)
          keys acc) =
     set acc \<union> {g. \<exists>key \<in> set keys. \<exists>arr. gi key = Some arr \<and> g \<in> set arr}"
  by (induction keys arbitrary: acc) (auto simp: set_fold_setAdd split: option.splits)

lemma set_gather:
  "set (gather gi keys) = {g. \<exists>key \<in> set keys. \<exists>arr. gi key = Some arr \<and> g \<in> set arr}"
  by (simp add: gather_def set_gather_acc)

text \<open>The bucket of a key holds the segments of that cell, in the order of the array.\<close>

lemma fold_gridInsert:
  "fold (gridInsert gs) segs m key =
     (let new = filter (\<lambda>g. midKey gs g = key) segs
      in case m key of
           None \<Rightarrow> (if new = [] then None else Some new)
         | Some bucket \<Rightarrow> Some (bucket @ new))"
  by (induction segs arbitrary: m) (auto simp: gridInsert_def Let_def split: option.splits)

lemma buildGrid_lookup:
  "buildGrid gs segs key =
     (if filter (\<lambda>g. midKey gs g = key) segs = [] then None
      else Some (filter (\<lambda>g. midKey gs g = key) segs))"
  by (simp add: buildGrid_def fold_gridInsert Let_def)

lemma set_gather_buildGrid:
  "set (gather (buildGrid gs segs) keys) = {g \<in> set segs. midKey gs g \<in> set keys}"
  by (auto simp: set_gather buildGrid_lookup filter_empty_conv split: if_splits)

text \<open>
  Claim C3, as the code has it. Take the segments, the grid index and the grid size of a
  build, and a query point for which one segment is strictly nearer than every other
  segment and has its cell in the 3x3 block around the cell of the query point. Then
  \<^verbatim>\<open>findNearestPointOnTrack\<close> with the index and the cell size returns what it returns
  with no index.
\<close>

theorem indexed_scan_agrees:
  assumes "r = buildSegments points options"
    and "strictlyNearest qlon qlat (segments r) w"
    and "inBlock qlon qlat (gridSize r) w"
  shows "findNearestPointOnTrack qlon qlat (segments r) (Some (gridIndex r)) (Some (gridSize r)) =
         findNearestPointOnTrack qlon qlat (segments r) None None"
proof -
  let ?segs = "segments r"
  from assms(2) have w: "w \<in> set ?segs"
    and lt: "\<forall>g \<in> set ?segs. g \<noteq> w \<longrightarrow> js_lt (distTo qlon qlat w) (distTo qlon qlat g)"
    by (simp_all add: strictlyNearest_def)
  from w have ne: "?segs \<noteq> []" by auto
  with assms(1) have gi: "gridIndex r = buildGrid (Fin 0.02) ?segs"
    and gs: "gridSize r = Fin 0.02"
    using build_nonempty [of points options] by simp_all
  let ?keys = "blockKeys (js_floor (js_div qlon (Fin 0.02))) (js_floor (js_div qlat (Fin 0.02)))"
  let ?found = "gather (buildGrid (Fin 0.02) ?segs) ?keys"
  have found: "set ?found = {g \<in> set ?segs. midKey (Fin 0.02) g \<in> set ?keys}"
    by (rule set_gather_buildGrid)
  from assms(3) gs have "midKey (Fin 0.02) w \<in> set ?keys" by (simp add: inBlock_def)
  with w found have wf: "w \<in> set ?found" by simp
  then have fne: "?found \<noteq> []" by auto
  from found lt
  have ltf: "\<forall>g \<in> set ?found. g \<noteq> w \<longrightarrow> js_lt (distTo qlon qlat w) (distTo qlon qlat g)"
    by simp
  have cand: "candidates qlon qlat ?segs (Some (gridIndex r)) (Some (gridSize r)) = ?found"
    using fne by (simp add: candidates_def gi gs Let_def)
  have "fold (scanStep qlon qlat) ?found None = Some (candidateOf qlon qlat w)"
    by (rule scan_finds [OF wf ltf]) simp
  moreover have "fold (scanStep qlon qlat) ?segs None = Some (candidateOf qlon qlat w)"
    by (rule scan_finds [OF w lt]) simp
  ultimately show ?thesis
    using ne cand by (simp add: findNearestPointOnTrack_def candidates_def)
qed

theorem indexed_scan_agrees_witness:
  "js_lt (distTo (Fin (1 / 4)) (Fin 0) segA0) (distTo (Fin (1 / 4)) (Fin 0) segA1) \<and>
   findNearestPointOnTrack (Fin (1 / 4)) (Fin 0) (segments (buildSegments trackA (opts 2)))
     (Some (gridIndex (buildSegments trackA (opts 2))))
     (Some (gridSize (buildSegments trackA (opts 2)))) =
   findNearestPointOnTrack (Fin (1 / 4)) (Fin 0) (segments (buildSegments trackA (opts 2)))
     None None"
proof -
  have d0: "distTo (Fin (1 / 4)) (Fin 0) segA0 = Fin 0"
    by (simp add: distTo_def candidate_segA0)
  have lt: "js_lt (distTo (Fin (1 / 4)) (Fin 0) segA0) (distTo (Fin (1 / 4)) (Fin 0) segA1)"
    using dist_segA1 by (simp add: d0)
  have near: "strictlyNearest (Fin (1 / 4)) (Fin 0) (segments (buildSegments trackA (opts 2))) segA0"
    using lt by (simp add: strictlyNearest_def segments_trackA)
  have size: "gridSize (buildSegments trackA (opts 2)) = Fin (1 / 50)"
    using build_nonempty [of trackA "opts 2"] by (simp add: segments_trackA)
  have block: "inBlock (Fin (1 / 4)) (Fin 0) (gridSize (buildSegments trackA (opts 2))) segA0"
    by (simp add: size inBlock_def midKey_def cellKey_def blockKeys_def segA0_def)
  from indexed_scan_agrees [OF refl near block] lt show ?thesis by simp
qed

text \<open>
  The claim as stated fails when two segments are equally near. On the track that goes
  out and comes back, the query point at longitude 1/32 lies on both segments, at
  distance 0 from each, and both have their cell in the block. The scan of the whole
  array meets the outbound segment first and returns its speed 15; the scan of the block
  meets the cell of the returning segment first and returns its speed 30.
\<close>

theorem indexed_scan_counterexample:
  "segments (buildSegments trackBack (opts 1)) = [segOut, segBack] \<and>
   distTo (Fin (1 / 32)) (Fin 0) segOut = Fin 0 \<and>
   distTo (Fin (1 / 32)) (Fin 0) segBack = Fin 0 \<and>
   inBlock (Fin (1 / 32)) (Fin 0) (gridSize (buildSegments trackBack (opts 1))) segOut \<and>
   inBlock (Fin (1 / 32)) (Fin 0) (gridSize (buildSegments trackBack (opts 1))) segBack \<and>
   findNearestPointOnTrack (Fin (1 / 32)) (Fin 0) (segments (buildSegments trackBack (opts 1)))
     None None = Some (candidateOf (Fin (1 / 32)) (Fin 0) segOut) \<and>
   findNearestPointOnTrack (Fin (1 / 32)) (Fin 0) (segments (buildSegments trackBack (opts 1)))
     (Some (gridIndex (buildSegments trackBack (opts 1))))
     (Some (gridSize (buildSegments trackBack (opts 1)))) =
     Some (candidateOf (Fin (1 / 32)) (Fin 0) segBack) \<and>
   res_speed (candidateOf (Fin (1 / 32)) (Fin 0) segOut) = Fin 15 \<and>
   res_speed (candidateOf (Fin (1 / 32)) (Fin 0) segBack) = Fin 30"
proof -
  have block: "inBlock (Fin (1 / 32)) (Fin 0) (Fin (1 / 50)) segOut"
      "inBlock (Fin (1 / 32)) (Fin 0) (Fin (1 / 50)) segBack"
    by (simp_all add: inBlock_def midKey_def cellKey_def blockKeys_def segOut_def segBack_def)
  have full: "findNearestPointOnTrack (Fin (1 / 32)) (Fin 0) [segOut, segBack] None None =
                Some (candidateOf (Fin (1 / 32)) (Fin 0) segOut)"
    by (simp add: findNearestPointOnTrack_def candidates_def scanStep_def Let_def
        candidate_segOut candidate_segBack)
  have indexed: "findNearestPointOnTrack (Fin (1 / 32)) (Fin 0) [segOut, segBack]
                   (Some gridBack) (Some (Fin (1 / 50))) =
                 Some (candidateOf (Fin (1 / 32)) (Fin 0) segBack)"
    by (simp add: findNearestPointOnTrack_def candidates_def scanStep_def Let_def
        candidate_segOut candidate_segBack gather_gridBack)
  show ?thesis
    unfolding segments_trackBack gridIndex_trackBack gridSize_trackBack
    using block full indexed
    by (simp add: distTo_def candidate_segOut candidate_segBack)
qed

section \<open>Facts about the rounded operations\<close>

lemma r_add_Fin: "r_add rnd (Fin a) (Fin b) = rnd (a + b)"
  by (simp add: r_add_def)

lemma r_sub_Fin: "r_sub rnd (Fin a) (Fin b) = rnd (a - b)"
  by (simp add: r_sub_def r_add_def)

lemma r_mul_Fin: "r_mul rnd (Fin a) (Fin b) = rnd (a * b)"
  by (simp add: r_mul_def)

lemma r_div_Fin: "b \<noteq> 0 \<Longrightarrow> r_div rnd (Fin a) (Fin b) = rnd (a / b)"
  by (simp add: r_div_def)

text \<open>With \<open>Fin\<close> as the rounding the operations are the exact ones.\<close>

lemma r_add_exact: "r_add Fin x y = js_add x y"
  by (cases x; cases y) (simp_all add: r_add_def)

lemma r_sub_exact: "r_sub Fin x y = js_sub x y"
  by (simp add: r_sub_def js_sub_def r_add_exact)

lemma r_mul_exact: "r_mul Fin x y = js_mul x y"
  by (cases x; cases y) (simp_all add: r_mul_def)

lemma r_div_exact: "r_div Fin x y = js_div x y"
  by (cases x; cases y) (simp_all add: r_div_def)

lemma lerpR_exact: "lerpR Fin a b t = lerp a b t"
  by (simp add: lerpR_def lerp_def r_add_exact r_sub_exact r_mul_exact)

text \<open>A finite product or difference has finite operands.\<close>

lemma r_mul_finite: "isFinite (r_mul rnd x y) \<Longrightarrow> isFinite x \<and> isFinite y"
  by (cases x; cases y) (simp_all add: r_mul_def inf_times_def split: if_splits)

lemma r_sub_finite: "isFinite (r_sub rnd x y) \<Longrightarrow> isFinite x \<and> isFinite y"
  by (cases x; cases y) (simp_all add: r_sub_def r_add_def)

lemma rndRange_0: "rndRange 0 = Fin 0"
  by (simp add: rndRange_def)

lemma rndRange_exact:
  "1 / 2 ^ 1075 < \<bar>x\<bar> \<Longrightarrow> \<bar>x\<bar> < 2 ^ 1024 - 2 ^ 970 \<Longrightarrow> rndRange x = Fin x"
  by (auto simp: rndRange_def)

lemma rndRange_ordinary: "1 / 2 ^ 20 \<le> \<bar>x\<bar> \<Longrightarrow> \<bar>x\<bar> \<le> 2 ^ 60 \<Longrightarrow> rndRange x = Fin x"
proof (rule rndRange_exact)
  assume a: "1 / 2 ^ 20 \<le> \<bar>x\<bar>" and b: "\<bar>x\<bar> \<le> 2 ^ 60"
  have "(1::real) / 2 ^ 1075 < 1 / 2 ^ 20" by simp
  with a show "1 / 2 ^ 1075 < \<bar>x\<bar>" by linarith
  have "(2::real) ^ 60 < 2 ^ 1024 - 2 ^ 970" by simp
  with b show "\<bar>x\<bar> < 2 ^ 1024 - 2 ^ 970" by linarith
qed

text \<open>A product with zero of a finite value is zero under a rounding that keeps zero.\<close>

lemma r_mul_zero_right: "rnd 0 = Fin 0 \<Longrightarrow> isFinite x \<Longrightarrow> r_mul rnd x (Fin 0) = Fin 0"
  by (auto simp: isFinite_iff r_mul_Fin)

lemma r_add_zero_right: "isFinite x \<Longrightarrow> dbl rnd x \<Longrightarrow> r_add rnd x (Fin 0) = x"
  by (auto simp: isFinite_iff r_add_Fin)

lemma r_mul_one_right: "dbl rnd x \<Longrightarrow> r_mul rnd x (Fin 1) = x"
  by (cases x) (simp_all add: r_mul_def inf_times_def)

lemma r_sub_exact_sum:
  assumes "isFinite a" "r_sub rnd b a = js_sub b a" "dbl rnd b"
  shows "r_add rnd a (r_sub rnd b a) = b"
proof -
  from assms(1) obtain x where a: "a = Fin x" by (auto simp: isFinite_iff)
  show ?thesis
  proof (cases b)
    case (Fin y)
    with assms(3) have "rnd y = Fin y" by simp
    with assms(2) a Fin show ?thesis by (simp add: js_sub_Fin r_add_Fin)
  qed (use assms(2) a in \<open>simp_all add: js_sub_def r_add_def\<close>)
qed

section \<open>The colour scale at the ends of its domain\<close>

lemma stopsOf_nonempty: "stopsOf colors \<noteq> []"
  by (simp add: stopsOf_def defaultColors_def)

lemma arrayGet_nat: "k < length xs \<Longrightarrow> arrayGet xs (Fin (real k)) = Some (xs ! k)"
  by (simp add: arrayGet_def)

lemma truthy_or_1: "truthy (js_or x (Fin 1))"
  by (simp add: js_or_def)

lemma r_div_zero: "truthy y \<Longrightarrow> rnd 0 = Fin 0 \<Longrightarrow> r_div rnd (Fin 0) y = Fin 0"
  by (cases y) (simp_all add: r_div_def)

lemma lerpR_zero:
  assumes "rnd 0 = Fin 0" "isFinite a" "dbl rnd a" "isFinite (r_sub rnd b a)"
  shows "lerpR rnd a b (Fin 0) = a"
proof -
  from assms(2) obtain x where a: "a = Fin x" by (auto simp: isFinite_iff)
  from assms(4) obtain d where d: "r_sub rnd b a = Fin d" by (auto simp: isFinite_iff)
  from assms(3) a have x: "rnd x = Fin x" by simp
  show ?thesis
    using d by (simp add: lerpR_def a r_mul_Fin r_add_Fin assms(1) x)
qed

lemma lerpColor_zero:
  assumes "rnd 0 = Fin 0" "dblRGB rnd c" "stepFinite rnd c d"
  shows "lerpColor rnd c d (Fin 0) = opaque (roundRGB c)"
  using assms
  by (cases c; cases d)
    (simp add: dblRGB_def stepFinite_def lerpColor_def roundRGB_def opaque_def lerpR_zero)

lemma stepFinite_self: "rnd 0 = Fin 0 \<Longrightarrow> dblRGB rnd c \<Longrightarrow> stepFinite rnd c c"
  by (cases c) (auto simp: dblRGB_def stepFinite_def isFinite_iff r_sub_Fin)

lemma scale_at_min:
  assumes r0: "rnd 0 = Fin 0" and r1: "rnd 1 = Fin 1"
    and top: "rnd (real (length (stopsOf colors)) - 1) = Fin (real (length (stopsOf colors)) - 1)"
    and fin: "isFinite minSp" "isFinite maxSp"
    and len: "2 \<le> length (stopsOf colors)"
    and c0: "dblRGB rnd (stopsOf colors ! 0)"
    and st: "stepFinite rnd (stopsOf colors ! 0) (stopsOf colors ! 1)"
  shows "createSpeedColorScale rnd minSp maxSp colors minSp =
           Inr (opaque (roundRGB (stopsOf colors ! 0)))"
proof -
  let ?stops = "stopsOf colors"
  let ?n = "length ?stops"
  from fin obtain a where a: "minSp = Fin a" by (auto simp: isFinite_iff)
  have n1: "?n \<noteq> 1" using len by simp
  have z: "r_sub rnd minSp minSp = Fin 0"
    by (simp add: a r_sub_Fin r0)
  have u: "r_div rnd (Fin 0) (js_or (r_sub rnd maxSp minSp) (Fin 1)) = Fin 0"
    by (rule r_div_zero) (simp_all add: truthy_or_1 r0)
  have tp: "r_sub rnd (Fin (real ?n)) (Fin 1) = Fin (real ?n - 1)"
    by (simp add: r_sub_Fin top)
  have sc: "r_mul rnd (Fin 0) (Fin (real ?n - 1)) = Fin 0"
    by (simp add: r_mul_Fin r0)
  have t0: "r_sub rnd (Fin 0) (Fin 0) = Fin 0"
    by (simp add: r_sub_Fin r0)
  have g0: "arrayGet ?stops (Fin 0) = Some (?stops ! 0)"
    using arrayGet_nat [of 0 ?stops] stopsOf_nonempty [of colors] by simp
  have i1: "js_min (r_add rnd (Fin 0) (Fin 1)) (Fin (real ?n - 1)) = Fin 1"
    using len by (simp add: r_add_Fin r1)
  have g1: "arrayGet ?stops (Fin 1) = Some (?stops ! 1)"
    using arrayGet_nat [of 1 ?stops] len by simp
  have "createSpeedColorScale rnd minSp maxSp colors minSp =
          Inr (lerpColor rnd (?stops ! 0) (?stops ! 1) (Fin 0))"
    unfolding createSpeedColorScale_def Let_def
    using fin(1) n1 by (simp add: z u tp sc t0 g0 i1 g1 del: One_nat_def)
  then show ?thesis
    by (simp only: lerpColor_zero [OF r0 c0 st])
qed

lemma scale_at_max:
  assumes r0: "rnd 0 = Fin 0" and r1: "rnd 1 = Fin 1"
    and top: "rnd (real (length (stopsOf colors)) - 1) = Fin (real (length (stopsOf colors)) - 1)"
    and full: "rnd (real (length (stopsOf colors))) = Fin (real (length (stopsOf colors)))"
    and fin: "isFinite minSp" "isFinite maxSp"
    and len: "2 \<le> length (stopsOf colors)"
    and cl: "dblRGB rnd (last (stopsOf colors))"
    and sp: "isFinite (r_sub rnd maxSp minSp)" "r_sub rnd maxSp minSp \<noteq> Fin 0"
  shows "createSpeedColorScale rnd minSp maxSp colors maxSp =
           Inr (opaque (roundRGB (last (stopsOf colors))))"
proof -
  let ?stops = "stopsOf colors"
  let ?n = "length ?stops"
  from sp obtain s where s: "r_sub rnd maxSp minSp = Fin s" "s \<noteq> 0"
    by (auto simp: isFinite_iff)
  have n1: "?n \<noteq> 1" using len by simp
  have ne: "?stops \<noteq> []" by (rule stopsOf_nonempty)
  have lastn: "last ?stops = ?stops ! (?n - 1)"
    using ne by (simp add: last_conv_nth)
  have "1 \<le> ?n" using len by simp
  then have k: "real ?n - 1 = real (?n - 1)"
    using of_nat_diff [of 1 ?n, where 'a = real] by simp
  have spn: "js_or (Fin s) (Fin 1) = Fin s"
    using s(2) by (simp add: js_or_def)
  have u: "r_div rnd (Fin s) (Fin s) = Fin 1"
    using s(2) by (simp add: r_div_Fin r1)
  have top': "rnd (real (?n - 1)) = Fin (real (?n - 1))"
    using top by (simp only: k)
  have tp: "r_sub rnd (Fin (real ?n)) (Fin 1) = Fin (real (?n - 1))"
    by (simp only: r_sub_Fin k top')
  have sc: "r_mul rnd (Fin 1) (Fin (real (?n - 1))) = Fin (real (?n - 1))"
    by (simp only: r_mul_Fin mult_1 top')
  have fl: "js_floor (Fin (real (?n - 1))) = Fin (real (?n - 1))"
    by simp
  have t0: "r_sub rnd (Fin (real (?n - 1))) (Fin (real (?n - 1))) = Fin 0"
    by (simp add: r_sub_Fin r0)
  have gl: "arrayGet ?stops (Fin (real (?n - 1))) = Some (?stops ! (?n - 1))"
    using arrayGet_nat [of "?n - 1" ?stops] len by simp
  have "real (?n - 1) + 1 = real ?n" using len by simp
  then have i1: "js_min (r_add rnd (Fin (real (?n - 1))) (Fin 1)) (Fin (real (?n - 1))) =
                   Fin (real (?n - 1))"
    by (simp add: r_add_Fin full)
  have "createSpeedColorScale rnd minSp maxSp colors maxSp =
          Inr (lerpColor rnd (?stops ! (?n - 1)) (?stops ! (?n - 1)) (Fin 0))"
    unfolding createSpeedColorScale_def Let_def
    using fin(2) n1
    by (simp add: s(1) spn u tp sc fl t0 gl i1 del: One_nat_def js_floor.simps)+
  moreover from cl have cn: "dblRGB rnd (?stops ! (?n - 1))"
    by (simp only: lastn)
  moreover from r0 cn have "stepFinite rnd (?stops ! (?n - 1)) (?stops ! (?n - 1))"
    by (rule stepFinite_self)
  ultimately show ?thesis
    using r0 by (simp only: lastn lerpColor_zero)
qed

lemma scale_single:
  assumes "isFinite sp" "length (stopsOf colors) = 1"
  shows "createSpeedColorScale rnd minSp maxSp colors sp = Inr (opaque (hd (stopsOf colors)))"
  using assms stopsOf_nonempty [of colors]
  by (cases "stopsOf colors ! 0")
    (simp add: createSpeedColorScale_def Let_def opaque_def hd_conv_nth)

lemma stops_blackWhite:
  "stopsOf blackWhite = [(Fin 0, Fin 0, Fin 0), (Fin 255, Fin 255, Fin 255)]"
  by code_simp

lemma stops_blackBroken: "stopsOf blackBroken = [(Fin 0, Fin 0, Fin 0), (NaN, NaN, NaN)]"
  by code_simp

lemma stops_blackInf: "stopsOf blackInf = [(Fin 0, Fin 0, Fin 0), (PInf, Fin 255, Fin 255)]"
  by code_simp

lemma rndRange_small_nat: "rndRange 1 = Fin 1" "rndRange 2 = Fin 2" "rndRange 255 = Fin 255"
    "rndRange 100 = Fin 100"
  by (simp_all add: rndRange_ordinary)

lemma rnd_vals: "rndRange 5 = Fin 5" "rndRange (- 255) = Fin (- 255)"
  by (simp_all add: rndRange_ordinary)

lemma scale_equal_bounds:
  "createSpeedColorScale rndRange (Fin 5) (Fin 5) blackWhite (Fin 5) =
     Inr (Fin 0, Fin 0, Fin 0, Fin 255)"
proof -
  have "createSpeedColorScale rndRange (Fin 5) (Fin 5) blackWhite (Fin 5) =
          Inr (opaque (roundRGB (stopsOf blackWhite ! 0)))"
    by (rule scale_at_min)
      (simp_all add: stops_blackWhite rndRange_0 rndRange_small_nat dblRGB_def stepFinite_def
        r_sub_Fin)
  then show ?thesis
    by (simp add: stops_blackWhite roundRGB_def opaque_def)
qed

lemma scale_broken_stop:
  "createSpeedColorScale rndRange (Fin 0) (Fin 100) blackBroken (Fin 0) =
     Inr (NaN, NaN, NaN, Fin 255)"
  by (simp add: createSpeedColorScale_def Let_def stops_blackBroken r_sub_Fin r_div_Fin
      r_mul_Fin r_add_Fin rndRange_0 rndRange_small_nat js_or_def arrayGet_def lerpColor_def
      lerpR_def r_sub_def r_add_def r_mul_def)

text \<open>When the normalised speed is \<^verbatim>\<open>NaN\<close> and there are two stops or more, the scale throws.\<close>

lemma scale_nan:
  assumes "isFinite sp" "2 \<le> length (stopsOf colors)"
    and "r_div rnd (r_sub rnd sp minSp) (js_or (r_sub rnd maxSp minSp) (Fin 1)) = NaN"
  shows "createSpeedColorScale rnd minSp maxSp colors sp = Inl TypeError"
proof -
  have "length (stopsOf colors) \<noteq> 1" using assms(2) by simp
  moreover have "r_mul rnd NaN y = NaN" for y
    by (simp add: r_mul_def)
  moreover have "arrayGet (stopsOf colors) NaN = None"
    by (simp add: arrayGet_def)
  ultimately show ?thesis
    using assms(1) by (simp add: createSpeedColorScale_def Let_def assms(3))
qed

lemma scale_overflow:
  "createSpeedColorScale rndRange (Fin (- (2 ^ 1023))) (Fin (2 ^ 1023)) blackWhite
     (Fin (2 ^ 1023)) = Inl TypeError"
proof (rule scale_nan)
  have sp: "r_sub rndRange (Fin (2 ^ 1023)) (Fin (- (2 ^ 1023))) = PInf"
    by (simp add: r_sub_Fin rndRange_def)
  show "r_div rndRange (r_sub rndRange (Fin (2 ^ 1023)) (Fin (- (2 ^ 1023))))
          (js_or (r_sub rndRange (Fin (2 ^ 1023)) (Fin (- (2 ^ 1023)))) (Fin 1)) = NaN"
    by (simp only: sp) (simp add: js_or_def r_div_def)
qed (simp_all add: stops_blackWhite)

lemma scale_infinite_stop:
  "createSpeedColorScale rndRange (Fin 0) (Fin 100) blackInf (Fin 100) =
     Inr (NaN, Fin 255, Fin 255, Fin 255)"
  by (simp add: createSpeedColorScale_def Let_def stops_blackInf r_sub_Fin r_div_Fin
      r_mul_Fin r_add_Fin rndRange_0 rndRange_small_nat js_or_def arrayGet_def lerpColor_def
      lerpR_def r_sub_def r_add_def r_mul_def)

text \<open>
  Claim C6, as the code has it. Take finite \<^verbatim>\<open>minSpeed\<close> and \<^verbatim>\<open>maxSpeed\<close>. With a single
  stop the scale is that stop at both bounds. With two stops or more: when the channels of
  the first stop are finite and their differences to those of the second stop are
  finite, the scale at \<^verbatim>\<open>minSpeed\<close> is the first stop; when the channels of the last stop
  are finite and \<^verbatim>\<open>maxSpeed - minSpeed\<close>, as computed, is finite and not 0, the scale at
  \<^verbatim>\<open>maxSpeed\<close> is the last stop; each channel goes through \<^verbatim>\<open>Math.round\<close>. Alpha is 255.
  The statement holds for every rounding that leaves 0, 1, the number of stops and its
  predecessor, and the channels as they are.
\<close>

theorem scale_at_domain_ends:
  assumes "isFinite minSp" "isFinite maxSp"
    and "dbl rnd (Fin 0)" "dbl rnd (Fin 1)"
    and "dbl rnd (Fin (real (length (stopsOf colors))))"
    and "dbl rnd (Fin (real (length (stopsOf colors)) - 1))"
  shows "(length (stopsOf colors) = 1 \<longrightarrow>
            createSpeedColorScale rnd minSp maxSp colors minSp =
              Inr (opaque (hd (stopsOf colors))) \<and>
            createSpeedColorScale rnd minSp maxSp colors maxSp =
              Inr (opaque (last (stopsOf colors)))) \<and>
         (2 \<le> length (stopsOf colors) \<and> dblRGB rnd (hd (stopsOf colors)) \<and>
          stepFinite rnd (hd (stopsOf colors)) (stopsOf colors ! 1) \<longrightarrow>
            createSpeedColorScale rnd minSp maxSp colors minSp =
              Inr (opaque (roundRGB (hd (stopsOf colors))))) \<and>
         (2 \<le> length (stopsOf colors) \<and> dblRGB rnd (last (stopsOf colors)) \<and>
          isFinite (r_sub rnd maxSp minSp) \<and> r_sub rnd maxSp minSp \<noteq> Fin 0 \<longrightarrow>
            createSpeedColorScale rnd minSp maxSp colors maxSp =
              Inr (opaque (roundRGB (last (stopsOf colors)))))"
proof -
  let ?stops = "stopsOf colors"
  have ne: "?stops \<noteq> []" by (rule stopsOf_nonempty)
  have r0: "rnd 0 = Fin 0" and r1: "rnd 1 = Fin 1"
    and full: "rnd (real (length ?stops)) = Fin (real (length ?stops))"
    and top: "rnd (real (length ?stops) - 1) = Fin (real (length ?stops) - 1)"
    using assms(3-6) by simp_all
  have hd0: "hd ?stops = ?stops ! 0" using ne by (simp add: hd_conv_nth)
  have single: "hd ?stops = last ?stops" if "length ?stops = 1"
    using that by (cases ?stops) simp_all
  have A: "createSpeedColorScale rnd minSp maxSp colors minSp = Inr (opaque (hd ?stops)) \<and>
           createSpeedColorScale rnd minSp maxSp colors maxSp = Inr (opaque (last ?stops))"
    if "length ?stops = 1"
    using scale_single [OF assms(1) that, of rnd minSp maxSp]
      scale_single [OF assms(2) that, of rnd minSp maxSp] single [OF that]
    by simp
  have B: "createSpeedColorScale rnd minSp maxSp colors minSp =
             Inr (opaque (roundRGB (hd ?stops)))"
    if "2 \<le> length ?stops" "dblRGB rnd (hd ?stops)" "stepFinite rnd (hd ?stops) (?stops ! 1)"
    using scale_at_min [OF r0 r1 top assms(1,2) that(1)] that(2,3)
    by (simp only: hd0)
  have C: "createSpeedColorScale rnd minSp maxSp colors maxSp =
             Inr (opaque (roundRGB (last ?stops)))"
    if "2 \<le> length ?stops" "dblRGB rnd (last ?stops)"
       "isFinite (r_sub rnd maxSp minSp)" "r_sub rnd maxSp minSp \<noteq> Fin 0"
    using that by (rule scale_at_max [OF r0 r1 top full assms(1,2)])
  from A B C show ?thesis by blast
qed

theorem scale_at_domain_ends_witness:
  "createSpeedColorScale rndRange (Fin 0) (Fin 100) blackWhite (Fin 0) =
     Inr (Fin 0, Fin 0, Fin 0, Fin 255) \<and>
   createSpeedColorScale rndRange (Fin 0) (Fin 100) blackWhite (Fin 100) =
     Inr (Fin 255, Fin 255, Fin 255, Fin 255)"
proof -
  have d: "dbl rndRange (Fin 0)" "dbl rndRange (Fin 1)"
      "dbl rndRange (Fin (real (length (stopsOf blackWhite))))"
      "dbl rndRange (Fin (real (length (stopsOf blackWhite)) - 1))"
    by (simp_all add: stops_blackWhite rndRange_0 rndRange_small_nat)
  have c: "dblRGB rndRange (hd (stopsOf blackWhite))" "dblRGB rndRange (last (stopsOf blackWhite))"
      "stepFinite rndRange (hd (stopsOf blackWhite)) (stopsOf blackWhite ! 1)"
    by (simp_all add: stops_blackWhite dblRGB_def stepFinite_def rndRange_0 rndRange_small_nat
        r_sub_Fin)
  have s: "isFinite (r_sub rndRange (Fin 100) (Fin 0))" "r_sub rndRange (Fin 100) (Fin 0) \<noteq> Fin 0"
    by (simp_all add: r_sub_Fin rndRange_small_nat)
  have l: "2 \<le> length (stopsOf blackWhite)"
    by (simp add: stops_blackWhite)
  from scale_at_domain_ends [of "Fin 0" "Fin 100" rndRange blackWhite, OF _ _ d] c s l
  show ?thesis
    by (simp add: stops_blackWhite roundRGB_def opaque_def)
qed

text \<open>
  The claim as stated fails in four ways. With \<^verbatim>\<open>minSpeed = maxSpeed = 5\<close> and the stops
  black and white, the span is replaced by 1 and the scale at \<^verbatim>\<open>maxSpeed\<close> is black, the
  first stop, not the last. With a second stop that \<^verbatim>\<open>parseInt\<close> reads as \<^verbatim>\<open>NaN\<close>, the
  scale at \<^verbatim>\<open>minSpeed\<close> has the channels \<^verbatim>\<open>NaN\<close>, not those of the first stop. With the
  finite bounds \<open>- 2 ^ 1023\<close> and \<open>2 ^ 1023\<close> the span overflows to \<^verbatim>\<open>Infinity\<close>, the
  normalised speed at \<^verbatim>\<open>maxSpeed\<close> is \<^verbatim>\<open>NaN\<close>, and the call throws. With a last stop
  that has an infinite channel, that channel is \<^verbatim>\<open>NaN\<close> at \<^verbatim>\<open>maxSpeed\<close>.
\<close>

theorem scale_at_domain_ends_counterexample:
  "createSpeedColorScale rndRange (Fin 5) (Fin 5) blackWhite (Fin 5) =
     Inr (Fin 0, Fin 0, Fin 0, Fin 255) \<and>
   last (stopsOf blackWhite) = (Fin 255, Fin 255, Fin 255) \<and>
   createSpeedColorScale rndRange (Fin 0) (Fin 100) blackBroken (Fin 0) =
     Inr (NaN, NaN, NaN, Fin 255) \<and>
   hd (stopsOf blackBroken) = (Fin 0, Fin 0, Fin 0) \<and>
   createSpeedColorScale rndRange (Fin (- (2 ^ 1023))) (Fin (2 ^ 1023)) blackWhite
     (Fin (2 ^ 1023)) = Inl TypeError \<and>
   createSpeedColorScale rndRange (Fin 0) (Fin 100) blackInf (Fin 100) =
     Inr (NaN, Fin 255, Fin 255, Fin 255) \<and>
   last (stopsOf blackInf) = (PInf, Fin 255, Fin 255)"
proof -
  have a: "last (stopsOf blackWhite) = (Fin 255, Fin 255, Fin 255)"
    by (simp add: stops_blackWhite)
  have b: "hd (stopsOf blackBroken) = (Fin 0, Fin 0, Fin 0)"
    by (simp add: stops_blackBroken)
  have c: "last (stopsOf blackInf) = (PInf, Fin 255, Fin 255)"
    by (simp add: stops_blackInf)
  from scale_equal_bounds a scale_broken_stop b scale_overflow scale_infinite_stop c
  show ?thesis
    by (simp only: simp_thms)
qed

section \<open>The rounded projection and the exact one\<close>

lemma segVecR_exact:
  "segVecR Fin (metricOf g) g =
     (case path g of ((x1, y1), (x2, y2)) \<Rightarrow>
      case metricOf g of (mPerDegLat, mPerDegLon) \<Rightarrow>
        (js_mul (js_sub x2 x1) mPerDegLon, js_mul (js_sub y2 y1) mPerDegLat))"
  by (simp add: segVecR_def r_mul_exact r_sub_exact split: prod.splits)

lemma sqLengthR_exact: "sqLengthR Fin (metricOf g) g = sqLength g"
  by (simp add: sqLengthR_def sqLength_def segVecR_exact r_mul_exact r_add_exact Let_def
      split: prod.splits)

lemma vLen2R_exact: "vLen2R Fin (metricOf g) g = vLen2 g"
  by (simp add: vLen2R_def vLen2_def sqLengthR_exact)

lemma projParamR_exact: "projParamR Fin (metricOf g) qlon qlat g = projParam qlon qlat g"
  by (simp add: projParamR_def projParam_def queryVecR_def segVecR_def vLen2R_exact
      r_mul_exact r_sub_exact r_add_exact r_div_exact Let_def split: prod.splits)

lemma projPointR_exact:
  "projPointR Fin g t = (res_lon (resultAt qlon qlat g t), res_lat (resultAt qlon qlat g t))"
  by (simp add: projPointR_def resultAt_def r_mul_exact r_sub_exact r_add_exact Let_def
      split: prod.splits)

lemma interpolateAt_exact:
  "interpolateAt Fin g t =
     (res_speed (resultAt qlon qlat g t), res_timestamp (resultAt qlon qlat g t))"
  by (simp add: interpolateAt_def resultAt_def r_mul_exact r_sub_exact r_add_exact Let_def
      split: prod.splits)

section \<open>A segment of length zero\<close>

text \<open>
  Claim C8, as the code has it. Take a segment whose vector in the local metric space is
  zero, \<^verbatim>\<open>vx = 0\<close> and \<^verbatim>\<open>vy = 0\<close> as computed, and a query point whose offsets \<^verbatim>\<open>ax\<close> and
  \<^verbatim>\<open>ay\<close> from the start point, as computed, are finite. Then the squared length is 0,
  the denominator is replaced by 1, the parameter is \<open>t = 0\<close> and the projected point is
  the start point of the segment. This holds for every rounding function that leaves zero
  and the two coordinates of the start point as they are, and for every pair of factors
  \<^verbatim>\<open>mPerDegLat\<close>, \<^verbatim>\<open>mPerDegLon\<close>.
\<close>

theorem degenerate_segment_collapses:
  assumes "dbl rnd (Fin 0)"
    and "segVecR rnd m g = (Fin 0, Fin 0)"
    and "finitePair (queryVecR rnd m qlon qlat g)"
    and "dbl rnd (fst (fst (path g)))" "dbl rnd (snd (fst (path g)))"
  shows "sqLengthR rnd m g = Fin 0 \<and> vLen2R rnd m g = Fin 1 \<and>
         projParamR rnd m qlon qlat g = Fin 0 \<and>
         projPointR rnd g (projParamR rnd m qlon qlat g) = fst (path g)"
proof -
  have r0: "rnd 0 = Fin 0" using assms(1) by simp
  obtain x1 y1 x2 y2 where pth: "path g = ((x1, y1), (x2, y2))"
    by (cases "path g") auto
  obtain mLat mLon where m: "m = (mLat, mLon)"
    by (cases m) auto
  from assms(2) have vx: "r_mul rnd (r_sub rnd x2 x1) mLon = Fin 0"
    and vy: "r_mul rnd (r_sub rnd y2 y1) mLat = Fin 0"
    by (simp_all add: segVecR_def pth m)
  have dx: "isFinite (r_sub rnd x2 x1)" and dy: "isFinite (r_sub rnd y2 y1)"
    using r_mul_finite [of rnd "r_sub rnd x2 x1" mLon] r_mul_finite [of rnd "r_sub rnd y2 y1" mLat]
    by (simp_all add: vx vy)
  have fx: "isFinite x1" and fy: "isFinite y1"
    using r_sub_finite [OF dx] r_sub_finite [OF dy] by simp_all
  obtain ax ay where q: "queryVecR rnd m qlon qlat g = (Fin ax, Fin ay)"
    using assms(3) by (cases "queryVecR rnd m qlon qlat g") (auto simp: finitePair_def isFinite_iff)
  have sq: "sqLengthR rnd m g = Fin 0"
    by (simp add: sqLengthR_def assms(2) r_mul_Fin r_add_Fin r0)
  have v: "vLen2R rnd m g = Fin 1"
    by (simp add: vLen2R_def sq js_or_def)
  have t: "projParamR rnd m qlon qlat g = Fin 0"
    by (simp add: projParamR_def q assms(2) v r_mul_Fin r_add_Fin r_div_Fin r0)
  have mx: "r_mul rnd (r_sub rnd x2 x1) (Fin 0) = Fin 0"
    using r0 dx by (rule r_mul_zero_right)
  have my: "r_mul rnd (r_sub rnd y2 y1) (Fin 0) = Fin 0"
    using r0 dy by (rule r_mul_zero_right)
  have px: "r_add rnd x1 (Fin 0) = x1"
    using fx assms(4) by (simp add: pth r_add_zero_right)
  have py: "r_add rnd y1 (Fin 0) = y1"
    using fy assms(5) by (simp add: pth r_add_zero_right)
  have "projPointR rnd g (Fin 0) = (x1, y1)"
    by (simp add: projPointR_def pth mx my px py)
  with sq v t pth show ?thesis by simp
qed

theorem degenerate_segment_collapses_witness:
  "segVecR rndRange metricEquator segDot = (Fin 0, Fin 0) \<and>
   queryVecR rndRange metricEquator (Fin 3) (Fin 4) segDot = (Fin (- 333958.02), Fin (- 442297.1)) \<and>
   sqLengthR rndRange metricEquator segDot = Fin 0 \<and>
   vLen2R rndRange metricEquator segDot = Fin 1 \<and>
   projParamR rndRange metricEquator (Fin 3) (Fin 4) segDot = Fin 0 \<and>
   projPointR rndRange segDot (projParamR rndRange metricEquator (Fin 3) (Fin 4) segDot) =
     (Fin 0, Fin 0)"
proof -
  have v: "segVecR rndRange metricEquator segDot = (Fin 0, Fin 0)"
    by (simp add: segVecR_def metricEquator_def segDot_def r_sub_Fin r_mul_Fin rndRange_0)
  have q: "queryVecR rndRange metricEquator (Fin 3) (Fin 4) segDot =
             (Fin (- 333958.02), Fin (- 442297.1))"
    by (simp add: queryVecR_def metricEquator_def segDot_def r_sub_Fin r_mul_Fin
        rndRange_ordinary)
  have p: "fst (path segDot) = (Fin 0, Fin 0)"
    by (simp add: segDot_def)
  from degenerate_segment_collapses [of rndRange metricEquator segDot "Fin 3" "Fin 4"] v q p
  show ?thesis
    by (auto simp add: finitePair_def rndRange_0)
qed

text \<open>
  The claim as stated fails in two ways. With a query point whose longitude is \<^verbatim>\<open>NaN\<close>,
  the segment from the origin to the origin has the vector zero and the denominator 1,
  and the parameter is \<^verbatim>\<open>NaN\<close>. And the squared length can be zero for a segment that has
  a length: for the segment of \<open>2 ^ -600\<close> degrees along the equator the product
  \<^verbatim>\<open>vx * vx\<close> underflows to zero, the denominator is replaced by 1, and for the query
  point at longitude 1 the parameter is not 0.
\<close>

theorem degenerate_segment_counterexample:
  "segVecR rndRange metricEquator segDot = (Fin 0, Fin 0) \<and>
   vLen2R rndRange metricEquator segDot = Fin 1 \<and>
   projParamR rndRange metricEquator NaN (Fin 0) segDot = NaN \<and>
   segVecR rndRange metricEquator segTiny = (Fin (111319.34 / 2 ^ 600), Fin 0) \<and>
   sqLengthR rndRange metricEquator segTiny = Fin 0 \<and>
   vLen2R rndRange metricEquator segTiny = Fin 1 \<and>
   projParamR rndRange metricEquator (Fin 1) (Fin 0) segTiny = Fin (111319.34 * 111319.34 / 2 ^ 600)"
proof -
  have v: "segVecR rndRange metricEquator segDot = (Fin 0, Fin 0)"
    by (simp add: segVecR_def metricEquator_def segDot_def r_sub_Fin r_mul_Fin rndRange_0)
  have s: "sqLengthR rndRange metricEquator segDot = Fin 0"
    by (simp add: sqLengthR_def v r_mul_Fin r_add_Fin rndRange_0)
  have l: "vLen2R rndRange metricEquator segDot = Fin 1"
    by (simp add: vLen2R_def s js_or_def)
  have n: "projParamR rndRange metricEquator NaN (Fin 0) segDot = NaN"
    by (simp add: projParamR_def queryVecR_def v l metricEquator_def segDot_def r_sub_def
        r_mul_def r_add_def r_div_def)
  have a: "rndRange (1 / 2 ^ 600) = Fin (1 / 2 ^ 600)"
    by (rule rndRange_exact) simp_all
  have b: "rndRange (111319.34 / 2 ^ 600) = Fin (111319.34 / 2 ^ 600)"
    by (rule rndRange_exact) simp_all
  have vt: "segVecR rndRange metricEquator segTiny = (Fin (111319.34 / 2 ^ 600), Fin 0)"
    using a b
    by (simp add: segVecR_def metricEquator_def segTiny_def r_sub_Fin r_mul_Fin rndRange_0)
  have c: "rndRange (111319.34 / 2 ^ 600 * (111319.34 / 2 ^ 600)) = Fin 0"
    by (simp add: rndRange_def)
  have st: "sqLengthR rndRange metricEquator segTiny = Fin 0"
    using c by (simp add: sqLengthR_def vt r_mul_Fin r_add_Fin rndRange_0)
  have lt: "vLen2R rndRange metricEquator segTiny = Fin 1"
    by (simp add: vLen2R_def st js_or_def)
  have qt: "queryVecR rndRange metricEquator (Fin 1) (Fin 0) segTiny = (Fin (- 111319.34), Fin 0)"
    by (simp add: queryVecR_def metricEquator_def segTiny_def r_sub_Fin r_mul_Fin rndRange_0
        rndRange_ordinary)
  have d: "rndRange (- 111319.34 * (111319.34 / 2 ^ 600)) = Fin (- 111319.34 * (111319.34 / 2 ^ 600))"
    by (rule rndRange_exact) simp_all
  have e: "rndRange (111319.34 * 111319.34 / 2 ^ 600) = Fin (111319.34 * 111319.34 / 2 ^ 600)"
    by (rule rndRange_exact) simp_all
  have pt: "projParamR rndRange metricEquator (Fin 1) (Fin 0) segTiny =
              Fin (111319.34 * 111319.34 / 2 ^ 600)"
    using d e
    by (simp add: projParamR_def qt vt lt r_mul_Fin r_add_Fin r_div_Fin rndRange_0)
  from v l n vt st lt pt show ?thesis by simp
qed

section \<open>Interpolation at the ends\<close>

text \<open>
  Claim C9, as the code has it. Take a segment whose \<^verbatim>\<open>speed0\<close> and \<^verbatim>\<open>time0\<close> are finite
  and whose differences \<^verbatim>\<open>speed1 - speed0\<close> and \<^verbatim>\<open>time1 - time0\<close>, as computed, are finite.
  At \<open>t = 0\<close> the interpolated speed and timestamp are \<^verbatim>\<open>speed0\<close> and \<^verbatim>\<open>time0\<close>. At
  \<open>t = 1\<close> they are the computed sums \<^verbatim>\<open>speed0 + (speed1 - speed0)\<close> and
  \<^verbatim>\<open>time0 + (time1 - time0)\<close>; such a sum is \<^verbatim>\<open>speed1\<close> (\<^verbatim>\<open>time1\<close>) when the difference is
  computed without rounding. This holds for every rounding function that leaves zero, the
  two start values, the two end values and the two differences as they are.
\<close>

theorem interpolation_at_ends:
  assumes "dbl rnd (Fin 0)"
    and "isFinite (speed0 g)" "dbl rnd (speed0 g)"
    and "isFinite (time0 g)" "dbl rnd (time0 g)"
    and "isFinite (r_sub rnd (speed1 g) (speed0 g))" "dbl rnd (r_sub rnd (speed1 g) (speed0 g))"
    and "isFinite (r_sub rnd (time1 g) (time0 g))" "dbl rnd (r_sub rnd (time1 g) (time0 g))"
    and "dbl rnd (speed1 g)" "dbl rnd (time1 g)"
  shows "interpolateAt rnd g (Fin 0) = (speed0 g, time0 g) \<and>
         interpolateAt rnd g (Fin 1) =
           (r_add rnd (speed0 g) (r_sub rnd (speed1 g) (speed0 g)),
            r_add rnd (time0 g) (r_sub rnd (time1 g) (time0 g))) \<and>
         (r_sub rnd (speed1 g) (speed0 g) = js_sub (speed1 g) (speed0 g) \<longrightarrow>
            fst (interpolateAt rnd g (Fin 1)) = speed1 g) \<and>
         (r_sub rnd (time1 g) (time0 g) = js_sub (time1 g) (time0 g) \<longrightarrow>
            snd (interpolateAt rnd g (Fin 1)) = time1 g)"
proof -
  have r0: "rnd 0 = Fin 0" using assms(1) by simp
  have zs: "r_mul rnd (r_sub rnd (speed1 g) (speed0 g)) (Fin 0) = Fin 0"
    using r0 assms(6) by (rule r_mul_zero_right)
  have zt: "r_mul rnd (r_sub rnd (time1 g) (time0 g)) (Fin 0) = Fin 0"
    using r0 assms(8) by (rule r_mul_zero_right)
  have s0: "r_add rnd (speed0 g) (Fin 0) = speed0 g"
    using assms(2,3) by (rule r_add_zero_right)
  have t0: "r_add rnd (time0 g) (Fin 0) = time0 g"
    using assms(4,5) by (rule r_add_zero_right)
  have os: "r_mul rnd (r_sub rnd (speed1 g) (speed0 g)) (Fin 1) = r_sub rnd (speed1 g) (speed0 g)"
    using assms(7) by (rule r_mul_one_right)
  have ot: "r_mul rnd (r_sub rnd (time1 g) (time0 g)) (Fin 1) = r_sub rnd (time1 g) (time0 g)"
    using assms(9) by (rule r_mul_one_right)
  have a: "interpolateAt rnd g (Fin 0) = (speed0 g, time0 g)"
    by (simp add: interpolateAt_def zs zt s0 t0)
  have b: "interpolateAt rnd g (Fin 1) =
             (r_add rnd (speed0 g) (r_sub rnd (speed1 g) (speed0 g)),
              r_add rnd (time0 g) (r_sub rnd (time1 g) (time0 g)))"
    by (simp add: interpolateAt_def os ot)
  have c: "fst (interpolateAt rnd g (Fin 1)) = speed1 g"
    if "r_sub rnd (speed1 g) (speed0 g) = js_sub (speed1 g) (speed0 g)"
    using r_sub_exact_sum [of "speed0 g" rnd "speed1 g"] assms(2,10) that by (simp add: b)
  have d: "snd (interpolateAt rnd g (Fin 1)) = time1 g"
    if "r_sub rnd (time1 g) (time0 g) = js_sub (time1 g) (time0 g)"
    using r_sub_exact_sum [of "time0 g" rnd "time1 g"] assms(4,11) that by (simp add: b)
  from a b c d show ?thesis by blast
qed

theorem interpolation_at_ends_witness:
  "r_sub rndRange (speed1 segOut) (speed0 segOut) = Fin 10 \<and>
   r_sub rndRange (time1 segOut) (time0 segOut) = Fin 1000 \<and>
   interpolateAt rndRange segOut (Fin 0) = (Fin 10, Fin 0) \<and>
   interpolateAt rndRange segOut (Fin 1) = (Fin 20, Fin 1000)"
proof -
  have v: "rndRange 10 = Fin 10" "rndRange 20 = Fin 20" "rndRange 1000 = Fin 1000"
    by (simp_all add: rndRange_ordinary)
  have s: "r_sub rndRange (speed1 segOut) (speed0 segOut) = Fin 10"
    "r_sub rndRange (time1 segOut) (time0 segOut) = Fin 1000"
    by (simp_all add: segOut_def r_sub_Fin v)
  have e: "speed0 segOut = Fin 10" "speed1 segOut = Fin 20" "time0 segOut = Fin 0"
    "time1 segOut = Fin 1000"
    by (simp_all add: segOut_def)
  from interpolation_at_ends [of rndRange segOut] s e v show ?thesis
    by (auto simp add: rndRange_0 r_add_Fin)
qed

text \<open>
  The claim as stated fails when an endpoint is not finite, and when the endpoints are
  finite and their difference is not. The second segment of the track with an infinite
  speed has \<^verbatim>\<open>speed0 = Infinity\<close>; for the query point at its start the parameter is 0 and
  the speed of the result is \<^verbatim>\<open>NaN\<close>. For the segment with the speeds \<open>- 2 ^ 1023\<close> and
  \<open>2 ^ 1023\<close> the difference overflows to \<^verbatim>\<open>Infinity\<close>: the speed is \<^verbatim>\<open>NaN\<close> at \<open>t = 0\<close> and
  \<^verbatim>\<open>Infinity\<close> at \<open>t = 1\<close>.
\<close>

theorem interpolation_counterexample:
  "segments (buildSegments trackInf (opts 2)) ! 1 = segInf \<and>
   speed0 segInf = PInf \<and>
   projParam (Fin (1 / 2)) (Fin 0) segInf = Fin 0 \<and>
   res_speed (resultAt (Fin (1 / 2)) (Fin 0) segInf (Fin 0)) = NaN \<and>
   interpolateAt Fin segInf (Fin 0) = (NaN, Fin 500) \<and>
   speed0 segHuge = Fin (- (2 ^ 1023)) \<and> speed1 segHuge = Fin (2 ^ 1023) \<and>
   fst (interpolateAt rndRange segHuge (Fin 0)) = NaN \<and>
   fst (interpolateAt rndRange segHuge (Fin 1)) = PInf"
proof -
  have a: "projParam (Fin (1 / 2)) (Fin 0) segInf = Fin 0"
    by (simp add: nearest_simps segInf_def)
  have b: "res_speed (resultAt (Fin (1 / 2)) (Fin 0) segInf (Fin 0)) = NaN"
    by (simp add: nearest_simps segInf_def)
  have c: "interpolateAt Fin segInf (Fin 0) = (NaN, Fin 500)"
    by (simp add: interpolateAt_def segInf_def r_sub_def r_mul_def r_add_def)
  have d: "r_sub rndRange (Fin (2 ^ 1023)) (Fin (- (2 ^ 1023))) = PInf"
    by (simp add: r_sub_Fin rndRange_def)
  have h: "speed0 segHuge = Fin (- (2 ^ 1023))" "speed1 segHuge = Fin (2 ^ 1023)"
    by (simp_all add: segHuge_def)
  have e: "fst (interpolateAt rndRange segHuge (Fin 0)) = NaN"
    by (simp only: interpolateAt_def h d fst_conv) (simp add: r_mul_def r_add_def inf_times_def)
  have f: "fst (interpolateAt rndRange segHuge (Fin 1)) = PInf"
    by (simp only: interpolateAt_def h d fst_conv) (simp add: r_mul_def r_add_def inf_times_def)
  have i: "speed0 segInf = PInf"
    by (simp add: segInf_def)
  from segments_trackInf a b c e f h i show ?thesis
    by (simp only: simp_thms)
qed

end
